theory Spec2Isabelle
  imports Main "HOL-Library.AList"
begin

section \<open>JavaScript values\<close>

text \<open>
  The repository holds three variants of one relay server. This theory follows the
  fullest one, with the functions \<^verbatim>\<open>handleMessage\<close>, \<^verbatim>\<open>registerHost\<close>,
  \<^verbatim>\<open>connectToHost\<close>, \<^verbatim>\<open>relayData\<close> and \<^verbatim>\<open>handleDisconnect\<close> and a ping
  interval that calls \<^verbatim>\<open>handleDisconnect\<close> before \<^verbatim>\<open>terminate\<close>. Of the two others it
  has the variant whose handlers are inline in the \<^verbatim>\<open>connection\<close> callback (section
  ``The inline variant''), and \<^verbatim>\<open>handleRegisterHost\<close> of the third. Names are those
  of the source.

  The relay server receives text frames, decodes them with \<^verbatim>\<open>JSON.parse\<close> and reads
  the fields \<^verbatim>\<open>type\<close>, \<^verbatim>\<open>code\<close>, \<^verbatim>\<open>device_id\<close>, \<^verbatim>\<open>device_name\<close> and \<^verbatim>\<open>data\<close>
  of the result. A decoded value is one of JavaScript's values. Arrays and objects carry
  the reference the parser allocated for them, because the registries are JavaScript
  \<^verbatim>\<open>Map\<close>s, whose keys are compared by reference when they are objects; with the
  reference inside the value, HOL equality is the key comparison of \<^verbatim>\<open>Map\<close>.
  A string is a list of characters, one per code unit, so that \<open>length\<close> is
  JavaScript's \<^verbatim>\<open>.length\<close>. Numbers are observed by this program only through their
  truthiness and as keys, and are represented by integers.
\<close>

type_synonym ref = nat

datatype jsval =
    JUndefined
  | JNull
  | JBool bool
  | JNum int
  | JStr string
  | JArr ref "jsval list"
  | JObj ref "(string \<times> jsval) list"

datatype js_error = TypeError

text \<open>\<^verbatim>\<open>!v\<close> is \<open>\<not> truthy v\<close>.\<close>

fun truthy :: "jsval \<Rightarrow> bool" where
  "truthy JUndefined = False"
| "truthy JNull = False"
| "truthy (JBool b) = b"
| "truthy (JNum n) = (n \<noteq> 0)"
| "truthy (JStr s) = (s \<noteq> [])"
| "truthy (JArr r xs) = True"
| "truthy (JObj r kvs) = True"

text \<open>
  Property access \<^verbatim>\<open>v.k\<close>, for the property names this program reads. Reading a property
  of \<^verbatim>\<open>null\<close> or \<^verbatim>\<open>undefined\<close> throws a \<^verbatim>\<open>TypeError\<close>; a missing property is \<^verbatim>\<open>undefined\<close>.
  The list of an object holds its own properties, each name once; strings and arrays have
  their \<^verbatim>\<open>length\<close>.
\<close>

fun getProp :: "jsval \<Rightarrow> string \<Rightarrow> js_error + jsval" where
  "getProp JUndefined k = Inl TypeError"
| "getProp JNull k = Inl TypeError"
| "getProp (JBool b) k = Inr JUndefined"
| "getProp (JNum n) k = Inr JUndefined"
| "getProp (JStr s) k = Inr (if k = ''length'' then JNum (int (length s)) else JUndefined)"
| "getProp (JArr r xs) k = Inr (if k = ''length'' then JNum (int (length xs)) else JUndefined)"
| "getProp (JObj r kvs) k = Inr (case map_of kvs k of None \<Rightarrow> JUndefined | Some v \<Rightarrow> v)"

text \<open>
  The conversion of a value to a string, as a template string \<^verbatim>\<open>`... ${v} ...`\<close> and
  \<^verbatim>\<open>Array.prototype.join\<close> do it: whether it throws. The server only logs the strings, so
  the text itself is not kept. A primitive value converts. An object converts with the
  \<^verbatim>\<open>toString\<close> it inherits, unless it has a \<^verbatim>\<open>toString\<close> property of its own: a decoded
  value is never a function, so that property cannot be called, \<^verbatim>\<open>valueOf\<close> does not
  yield a primitive either, and the conversion throws a \<^verbatim>\<open>TypeError\<close>. An array converts by
  joining the conversions of its elements (\<^verbatim>\<open>null\<close> and \<^verbatim>\<open>undefined\<close> as the empty
  string).
\<close>

fun toString_throws :: "jsval \<Rightarrow> bool" where
  "toString_throws JUndefined = False"
| "toString_throws JNull = False"
| "toString_throws (JBool b) = False"
| "toString_throws (JNum n) = False"
| "toString_throws (JStr s) = False"
| "toString_throws (JArr r xs) = (\<exists>x\<in>set xs. toString_throws x)"
| "toString_throws (JObj r kvs) = (map_of kvs ''toString'' \<noteq> None)"

text \<open>A template string with these interpolated values, or the join of these values.\<close>

definition template_throws :: "jsval list \<Rightarrow> bool" where
  "template_throws vs \<longleftrightarrow> (\<exists>v\<in>set vs. toString_throws v)"

text \<open>\<^verbatim>\<open>v || 'unknown'\<close>\<close>

definition orUnknown :: "jsval \<Rightarrow> jsval" where
  "orUnknown v = (if truthy v then v else JStr ''unknown'')"

section \<open>Connections and the registry\<close>

datatype role = Host | Client

datatype ready_state = CONNECTING | OPEN | CLOSING | CLOSED

text \<open>
  The texts of the \<^verbatim>\<open>error\<close> replies: "Codigo invalido" and "Codigo en uso" of
  \<^verbatim>\<open>registerHost\<close>, "Codigo ya en uso" of \<^verbatim>\<open>handleRegisterHost\<close> (written with accents
  in the source).
\<close>

datatype error_message = Codigo_invalido | Codigo_en_uso | Codigo_ya_en_uso

text \<open>
  The texts of the \<^verbatim>\<open>reason\<close> of \<^verbatim>\<open>connection_failed\<close>: the long one of
  \<^verbatim>\<open>connectToHost\<close> ("No se encontro ningun PC con ese codigo. Verifica ...") and the
  short one of the inline variant ("No se encontro PC con ese codigo").
\<close>

datatype failure_reason = No_se_encontro_ningun_PC | No_se_encontro_PC

text \<open>
  The frames the server sends, before \<^verbatim>\<open>JSON.stringify\<close>: the constructor is the
  \<^verbatim>\<open>type\<close> tag, the arguments are the other fields in the order of the source.
\<close>

datatype frame =
    Pong_frame
  | Error_frame error_message
  | Registered jsval
  | Connection_failed failure_reason
  | Peer_connected jsval jsval
  | Connected_to_host jsval jsval
  | Relayed "role option" jsval
  | Peer_disconnected

text \<open>
  A connection is the \<^verbatim>\<open>ws\<close> object with the fields the server puts on it
  (\<^verbatim>\<open>isAlive\<close>, \<^verbatim>\<open>sessionCode\<close>, \<^verbatim>\<open>role\<close>, \<^verbatim>\<open>deviceId\<close>, \<^verbatim>\<open>deviceName\<close>) and
  what the transport keeps: \<^verbatim>\<open>readyState\<close>, the frames handed to \<^verbatim>\<open>send\<close> (oldest
  first) and the number of calls of \<^verbatim>\<open>ping\<close>. \<^verbatim>\<open>role\<close> is \<^verbatim>\<open>null\<close> (\<open>None\<close>),
  \<^verbatim>\<open>'host'\<close> or \<^verbatim>\<open>'client'\<close>.
\<close>

record conn =
  isAlive :: bool
  sessionCode :: jsval
  role :: "role option"
  deviceId :: jsval
  deviceName :: jsval
  readyState :: ready_state
  sent :: "frame list"
  pings :: nat

type_synonym cid = nat

text \<open>
  Connection objects are shared between the registries, \<^verbatim>\<open>wss.clients\<close> and the
  handlers, and are mutated in place: the state holds them in a store indexed by their
  identity. \<open>waitingEntries\<close> is the \<^verbatim>\<open>Map\<close> \<^verbatim>\<open>waitingHosts\<close>, as the list of its
  entries in insertion order (the server joins its keys in a log line); \<open>sessions\<close> maps a
  code to the pair \<^verbatim>\<open>{ host, client }\<close>. \<open>clients\<close> is \<^verbatim>\<open>wss.clients\<close> in insertion
  order. \<open>exited\<close> holds the exception that ended the process, once one has reached the
  event loop uncaught.
\<close>

record relay_state =
  conns :: "cid \<Rightarrow> conn"
  nextId :: cid
  clients :: "cid list"
  waitingEntries :: "(jsval \<times> cid) list"
  sessions :: "jsval \<rightharpoonup> (cid \<times> cid)"
  exited :: "js_error option"

text \<open>
  \<^verbatim>\<open>waitingHosts.get(code)\<close> is \<open>waitingHosts s code\<close>, \<^verbatim>\<open>waitingHosts.has(code)\<close> is
  \<open>waitingHosts s code \<noteq> None\<close>; \<^verbatim>\<open>waitingHosts.set(code, ws)\<close> replaces the value of a
  key in place and appends a new key; \<^verbatim>\<open>waitingHosts.delete(code)\<close>.
\<close>

definition waitingHosts :: "relay_state \<Rightarrow> jsval \<rightharpoonup> cid" where
  "waitingHosts s = map_of (waitingEntries s)"

definition waitingHosts_set :: "jsval \<Rightarrow> cid \<Rightarrow> relay_state \<Rightarrow> relay_state" where
  "waitingHosts_set code ws s = s\<lparr>waitingEntries := AList.update code ws (waitingEntries s)\<rparr>"

definition waitingHosts_delete :: "jsval \<Rightarrow> relay_state \<Rightarrow> relay_state" where
  "waitingHosts_delete code s = s\<lparr>waitingEntries := AList.delete code (waitingEntries s)\<rparr>"

text \<open>
  What a call leaves: \<open>Inr s'\<close> when it returns with the state \<open>s'\<close>, \<open>Inl (e, s')\<close> when
  it throws \<open>e\<close> with the state \<open>s'\<close> (what it had mutated before stays mutated).
\<close>

type_synonym outcome = "(js_error \<times> relay_state) + relay_state"

definition state_of :: "outcome \<Rightarrow> relay_state" where
  "state_of r = (case r of Inl (e, s) \<Rightarrow> s | Inr s \<Rightarrow> s)"

definition upd_conn :: "cid \<Rightarrow> (conn \<Rightarrow> conn) \<Rightarrow> relay_state \<Rightarrow> relay_state" where
  "upd_conn ws f s = s\<lparr>conns := (conns s)(ws := f (conns s ws))\<rparr>"

text \<open>\<^verbatim>\<open>ws.send(JSON.stringify(m))\<close>: the frame is handed to the transport of \<open>ws\<close>.\<close>

definition send :: "cid \<Rightarrow> frame \<Rightarrow> relay_state \<Rightarrow> relay_state" where
  "send ws m s = upd_conn ws (\<lambda>k. k\<lparr>sent := sent k @ [m]\<rparr>) s"

text \<open>\<^verbatim>\<open>ws.ping()\<close>.\<close>

definition ping :: "cid \<Rightarrow> relay_state \<Rightarrow> relay_state" where
  "ping ws s = upd_conn ws (\<lambda>k. k\<lparr>pings := Suc (pings k)\<rparr>) s"

text \<open>
  \<^verbatim>\<open>ws.terminate()\<close> of the transport library: it destroys the socket, and the
  connection is \<^verbatim>\<open>CLOSING\<close> until its \<^verbatim>\<open>close\<close> event; on a closed one it does nothing.
\<close>

definition terminate :: "cid \<Rightarrow> relay_state \<Rightarrow> relay_state" where
  "terminate ws s =
     (if readyState (conns s ws) = CLOSED then s
      else upd_conn ws (\<lambda>k. k\<lparr>readyState := CLOSING\<rparr>) s)"

section \<open>The handlers\<close>

text \<open>
  The log statements that build a template string from values of the frame or of a
  connection are in the model, at their place, because the conversion can throw; those
  that print constants, sizes or separate arguments are not (they cannot throw). A second
  conversion of a value that has been converted on the same path is not repeated.
\<close>

text \<open>\<^verbatim>\<open>const { code, device_id, device_name } = message;\<close>\<close>

definition destructure :: "jsval \<Rightarrow> js_error + (jsval \<times> jsval \<times> jsval)" where
  "destructure message =
     (case getProp message ''code'' of
        Inl e \<Rightarrow> Inl e
      | Inr code \<Rightarrow>
          (case getProp message ''device_id'' of
             Inl e \<Rightarrow> Inl e
           | Inr device_id \<Rightarrow>
               (case getProp message ''device_name'' of
                  Inl e \<Rightarrow> Inl e
                | Inr device_name \<Rightarrow> Inr (code, device_id, device_name))))"

text \<open>\<^verbatim>\<open>!code || code.length !== 9\<close>\<close>

definition invalidCode :: "jsval \<Rightarrow> bool" where
  "invalidCode code \<longleftrightarrow> \<not> truthy code \<or> getProp code ''length'' \<noteq> Inr (JNum 9)"

text \<open>
  \<^verbatim>\<open>code ? code.length : 0\<close>, the value the log of an invalid code prints (a truthy value
  is neither \<^verbatim>\<open>null\<close> nor \<^verbatim>\<open>undefined\<close>, so reading its \<^verbatim>\<open>length\<close> does not throw).
\<close>

definition lengthOrZero :: "jsval \<Rightarrow> jsval" where
  "lengthOrZero code =
     (if truthy code
      then (case getProp code ''length'' of Inl e \<Rightarrow> JUndefined | Inr l \<Rightarrow> l)
      else JNum 0)"

text \<open>
  \<^verbatim>\<open>registerHost\<close>. The first log prints the code, the device name and the device id; the
  log of an invalid code prints its length; the log after the registration joins the keys
  of \<^verbatim>\<open>waitingHosts\<close>.
\<close>

definition registerHost :: "cid \<Rightarrow> jsval \<Rightarrow> relay_state \<Rightarrow> outcome" where
  "registerHost ws message s =
     (case destructure message of
        Inl e \<Rightarrow> Inl (e, s)
      | Inr (code, device_id, device_name) \<Rightarrow>
          if template_throws [code, device_name, device_id] then Inl (TypeError, s)
          else if invalidCode code then
            (if template_throws [code, lengthOrZero code] then Inl (TypeError, s)
             else Inr (send ws (Error_frame Codigo_invalido) s))
          else if waitingHosts s code \<noteq> None then Inr (send ws (Error_frame Codigo_en_uso) s)
          else
            let s1 = upd_conn ws (\<lambda>k. k\<lparr>sessionCode := code, role := Some Host,
                                          deviceId := device_id, deviceName := device_name\<rparr>) s;
                s2 = waitingHosts_set code ws s1
            in if template_throws (map fst (waitingEntries s2)) then Inl (TypeError, s2)
               else Inr (send ws (Registered code) s2))"

text \<open>
  \<^verbatim>\<open>connectToHost\<close>. The failure branch logs the code before it replies; the success
  branch logs the device name and the host's device name after the registries are updated
  and before the two notifications.
\<close>

definition hostNotFound :: "cid \<Rightarrow> jsval \<Rightarrow> relay_state \<Rightarrow> outcome" where
  "hostNotFound ws code s =
     (if template_throws [code] then Inl (TypeError, s)
      else Inr (send ws (Connection_failed No_se_encontro_ningun_PC) s))"

definition connectToHost :: "cid \<Rightarrow> jsval \<Rightarrow> relay_state \<Rightarrow> outcome" where
  "connectToHost ws message s =
     (case destructure message of
        Inl e \<Rightarrow> Inl (e, s)
      | Inr (code, device_id, device_name) \<Rightarrow>
          (case waitingHosts s code of
             None \<Rightarrow> hostNotFound ws code s
           | Some hostWs \<Rightarrow>
               if readyState (conns s hostWs) \<noteq> OPEN then hostNotFound ws code s
               else
                 let s1 = upd_conn ws (\<lambda>k. k\<lparr>sessionCode := code, role := Some Client,
                                               deviceId := device_id, deviceName := device_name\<rparr>) s;
                     s2 = s1\<lparr>sessions := (sessions s1)(code \<mapsto> (hostWs, ws))\<rparr>;
                     s3 = waitingHosts_delete code s2
                 in if template_throws [device_name, deviceName (conns s3 hostWs)]
                    then Inl (TypeError, s3)
                    else
                      let s4 = send hostWs (Peer_connected device_id device_name) s3
                      in Inr (send ws (Connected_to_host (deviceId (conns s4 hostWs))
                                                         (deviceName (conns s4 hostWs))) s4)))"

text \<open>
  \<^verbatim>\<open>relayData\<close>; \<^verbatim>\<open>handleRelay\<close> of the third variant is the same function under
  another name. The frame is built only when the target is open, and reading
  \<^verbatim>\<open>message.data\<close> is part of building it.
\<close>

definition relayData :: "cid \<Rightarrow> jsval \<Rightarrow> relay_state \<Rightarrow> outcome" where
  "relayData ws message s =
     (case sessions s (sessionCode (conns s ws)) of
        None \<Rightarrow> Inr s
      | Some (host, client) \<Rightarrow>
          let target = (if role (conns s ws) = Some Host then client else host)
          in if readyState (conns s target) = OPEN
             then (case getProp message ''data'' of
                     Inl e \<Rightarrow> Inl (e, s)
                   | Inr d \<Rightarrow> Inr (send target (Relayed (role (conns s ws)) d) s))
             else Inr s)"

definition handleMessage :: "cid \<Rightarrow> jsval \<Rightarrow> relay_state \<Rightarrow> outcome" where
  "handleMessage ws message s =
     (case getProp message ''type'' of
        Inl e \<Rightarrow> Inl (e, s)
      | Inr t \<Rightarrow>
          if t = JStr ''register_host'' then registerHost ws message s
          else if t = JStr ''connect_to_host'' then connectToHost ws message s
          else if t = JStr ''relay'' then relayData ws message s
          else if t = JStr ''ping'' then Inr (send ws Pong_frame s)
          else Inr s)"

text \<open>\<^verbatim>\<open>handleDisconnect\<close>. Each branch logs the code after it has removed the entry.\<close>

definition handleDisconnect :: "cid \<Rightarrow> relay_state \<Rightarrow> outcome" where
  "handleDisconnect ws s =
     (if \<not> truthy (sessionCode (conns s ws)) then Inr s
      else
        let code = sessionCode (conns s ws)
        in if waitingHosts s code = Some ws
           then
             let s1 = waitingHosts_delete code s
             in if template_throws [code] then Inl (TypeError, s1) else Inr s1
           else
             (case sessions s code of
                None \<Rightarrow> Inr s
              | Some (host, client) \<Rightarrow>
                  let other = (if role (conns s ws) = Some Host then client else host);
                      s1 = (if readyState (conns s other) = OPEN
                            then send other Peer_disconnected s else s);
                      s2 = s1\<lparr>sessions := (sessions s1)(code := None)\<rparr>
                  in if template_throws [code] then Inl (TypeError, s2) else Inr s2))"

section \<open>The event handlers of a connection and the liveness sweep\<close>

text \<open>
  \<^verbatim>\<open>ws.on('message', ...)\<close>: the argument is the result of \<^verbatim>\<open>JSON.parse\<close> on the frame,
  \<open>None\<close> when it throws. The \<^verbatim>\<open>catch\<close> clause only logs: the handler goes on with the
  state the throwing call left.
\<close>

definition on_message :: "cid \<Rightarrow> jsval option \<Rightarrow> relay_state \<Rightarrow> relay_state" where
  "on_message ws parsed s =
     (case parsed of
        None \<Rightarrow> s
      | Some message \<Rightarrow> state_of (handleMessage ws message s))"

text \<open>
  \<^verbatim>\<open>ws.on('pong', ...)\<close> sets the flag and logs the device name; \<^verbatim>\<open>ws.on('close', ...)\<close>
  logs the device name and the code, then calls \<^verbatim>\<open>handleDisconnect\<close>. Neither has a
  \<^verbatim>\<open>try\<close>.
\<close>

definition on_pong :: "cid \<Rightarrow> relay_state \<Rightarrow> outcome" where
  "on_pong ws s =
     (let s1 = upd_conn ws (\<lambda>k. k\<lparr>isAlive := True\<rparr>) s
      in if template_throws [orUnknown (deviceName (conns s1 ws))] then Inl (TypeError, s1)
         else Inr s1)"

definition on_close :: "cid \<Rightarrow> relay_state \<Rightarrow> outcome" where
  "on_close ws s =
     (if template_throws [orUnknown (deviceName (conns s ws)), sessionCode (conns s ws)]
      then Inl (TypeError, s)
      else handleDisconnect ws s)"

text \<open>
  \<^verbatim>\<open>wss.on('connection', ...)\<close>: the transport has created an open connection and has
  added it to \<^verbatim>\<open>wss.clients\<close>; the handler initialises the three fields.
\<close>

definition newConn :: conn where
  "newConn = \<lparr>isAlive = True, sessionCode = JNull, role = None, deviceId = JUndefined,
              deviceName = JUndefined, readyState = OPEN, sent = [], pings = 0\<rparr>"

definition on_connection :: "relay_state \<Rightarrow> relay_state" where
  "on_connection s =
     s\<lparr>conns := (conns s)(nextId s := newConn), nextId := Suc (nextId s),
       clients := clients s @ [nextId s]\<rparr>"

text \<open>
  The body of the \<^verbatim>\<open>forEach\<close> of the ping interval, and the interval's callback: an
  exception of \<^verbatim>\<open>handleDisconnect\<close> ends the \<^verbatim>\<open>forEach\<close>.
\<close>

definition sweepOne :: "cid \<Rightarrow> relay_state \<Rightarrow> outcome" where
  "sweepOne ws s =
     (if \<not> isAlive (conns s ws)
      then (case handleDisconnect ws s of
              Inl x \<Rightarrow> Inl x
            | Inr s1 \<Rightarrow> Inr (terminate ws s1))
      else Inr (ping ws (upd_conn ws (\<lambda>k. k\<lparr>isAlive := False\<rparr>) s)))"

fun sweepAll :: "cid list \<Rightarrow> relay_state \<Rightarrow> outcome" where
  "sweepAll [] s = Inr s"
| "sweepAll (ws # wss) s =
     (case sweepOne ws s of Inl x \<Rightarrow> Inl x | Inr s1 \<Rightarrow> sweepAll wss s1)"

definition pingInterval :: "relay_state \<Rightarrow> outcome" where
  "pingInterval s = sweepAll (clients s) s"

section \<open>Runs of the server\<close>

text \<open>
  The server starts with empty registries and no connection. An event is a new
  connection, a frame or a pong or the close event of an existing connection, or a tick
  of the ping interval. The transport delivers frames and pongs of open connections
  only; at the close event it has set \<^verbatim>\<open>readyState\<close> to \<^verbatim>\<open>CLOSED\<close> and has removed the
  connection from \<^verbatim>\<open>wss.clients\<close>, and it emits the event once. An exception that no
  handler catches ends the process: no later event is handled.
\<close>

datatype event =
    Connection
  | Message cid "jsval option"
  | Pong cid
  | Close cid
  | Sweep

definition init_state :: relay_state where
  "init_state = \<lparr>conns = (\<lambda>_. newConn), nextId = 0, clients = [],
                 waitingEntries = [], sessions = Map.empty, exited = None\<rparr>"

definition uncaught :: "outcome \<Rightarrow> relay_state" where
  "uncaught r = (case r of Inl (e, s) \<Rightarrow> s\<lparr>exited := Some e\<rparr> | Inr s \<Rightarrow> s)"

definition deliver :: "event \<Rightarrow> relay_state \<Rightarrow> relay_state" where
  "deliver ev s =
     (case ev of
        Connection \<Rightarrow> on_connection s
      | Message ws parsed \<Rightarrow>
          if ws < nextId s \<and> readyState (conns s ws) = OPEN then on_message ws parsed s else s
      | Pong ws \<Rightarrow>
          if ws < nextId s \<and> readyState (conns s ws) = OPEN then uncaught (on_pong ws s) else s
      | Close ws \<Rightarrow>
          if ws < nextId s \<and> readyState (conns s ws) \<noteq> CLOSED
          then uncaught (on_close ws ((upd_conn ws (\<lambda>k. k\<lparr>readyState := CLOSED\<rparr>) s)
                                        \<lparr>clients := removeAll ws (clients s)\<rparr>))
          else s
      | Sweep \<Rightarrow> uncaught (pingInterval s))"

definition step :: "event \<Rightarrow> relay_state \<Rightarrow> relay_state" where
  "step ev s = (if exited s \<noteq> None then s else deliver ev s)"

fun run :: "event list \<Rightarrow> relay_state \<Rightarrow> relay_state" where
  "run [] s = s"
| "run (e # es) s = run es (step e s)"

text \<open>The client frames of the protocol, as \<^verbatim>\<open>JSON.parse\<close> returns them.\<close>

definition register_host_msg :: "ref \<Rightarrow> jsval \<Rightarrow> jsval \<Rightarrow> jsval \<Rightarrow> jsval" where
  "register_host_msg r code device_id device_name =
     JObj r [(''type'', JStr ''register_host''), (''code'', code),
             (''device_id'', device_id), (''device_name'', device_name)]"

definition connect_to_host_msg :: "ref \<Rightarrow> jsval \<Rightarrow> jsval \<Rightarrow> jsval \<Rightarrow> jsval" where
  "connect_to_host_msg r code device_id device_name =
     JObj r [(''type'', JStr ''connect_to_host''), (''code'', code),
             (''device_id'', device_id), (''device_name'', device_name)]"

definition relay_msg :: "ref \<Rightarrow> jsval \<Rightarrow> jsval" where
  "relay_msg r d = JObj r [(''type'', JStr ''relay''), (''data'', d)]"

section \<open>The inline variant\<close>

text \<open>
  The variant of \<^verbatim>\<open>server.js\<close> whose handlers are written inline in the
  \<^verbatim>\<open>connection\<close> callback. Its \<^verbatim>\<open>register_host\<close> branch has no check of the code's
  length and logs after the registration; it has no \<^verbatim>\<open>relay\<close> branch; its \<^verbatim>\<open>close\<close>
  handler goes on to the sessions after it has removed a waiting entry; its sweep only
  terminates. The \<^verbatim>\<open>connection\<close> handler is \<open>on_connection\<close>. \<open>inline_try\<close> is the
  body of the \<^verbatim>\<open>try\<close> after \<^verbatim>\<open>JSON.parse\<close>.
\<close>

definition inline_try :: "cid \<Rightarrow> jsval \<Rightarrow> relay_state \<Rightarrow> outcome" where
  "inline_try ws msg s =
     (case getProp msg ''type'' of
        Inl e \<Rightarrow> Inl (e, s)
      | Inr t \<Rightarrow>
          if t = JStr ''register_host'' then
            (case destructure msg of
               Inl e \<Rightarrow> Inl (e, s)
             | Inr (code, device_id, device_name) \<Rightarrow>
                 if waitingHosts s code \<noteq> None
                 then Inr (send ws (Error_frame Codigo_en_uso) s)
                 else
                   let s1 = upd_conn ws (\<lambda>k. k\<lparr>sessionCode := code, role := Some Host,
                                                 deviceId := device_id,
                                                 deviceName := device_name\<rparr>) s;
                       s2 = waitingHosts_set code ws s1
                   in if template_throws [device_name, code] then Inl (TypeError, s2)
                      else Inr (send ws (Registered code) s2))
          else if t = JStr ''connect_to_host'' then
            (case destructure msg of
               Inl e \<Rightarrow> Inl (e, s)
             | Inr (code, device_id, device_name) \<Rightarrow>
                 (case waitingHosts s code of
                    None \<Rightarrow> Inr (send ws (Connection_failed No_se_encontro_PC) s)
                  | Some hostWs \<Rightarrow>
                      if readyState (conns s hostWs) \<noteq> OPEN
                      then Inr (send ws (Connection_failed No_se_encontro_PC) s)
                      else
                        let s1 = upd_conn ws (\<lambda>k. k\<lparr>sessionCode := code, role := Some Client,
                                                      deviceId := device_id,
                                                      deviceName := device_name\<rparr>) s;
                            s2 = s1\<lparr>sessions := (sessions s1)(code \<mapsto> (hostWs, ws))\<rparr>;
                            s3 = waitingHosts_delete code s2
                        in if template_throws [device_name, deviceName (conns s3 hostWs)]
                           then Inl (TypeError, s3)
                           else
                             let s4 = send hostWs (Peer_connected device_id device_name) s3
                             in Inr (send ws (Connected_to_host (deviceId (conns s4 hostWs))
                                                (deviceName (conns s4 hostWs))) s4)))
          else if t = JStr ''ping'' then Inr (send ws Pong_frame s)
          else Inr s)"

definition inline_on_message :: "cid \<Rightarrow> jsval option \<Rightarrow> relay_state \<Rightarrow> relay_state" where
  "inline_on_message ws parsed s =
     (case parsed of
        None \<Rightarrow> s
      | Some msg \<Rightarrow> state_of (inline_try ws msg s))"

definition inline_on_pong :: "cid \<Rightarrow> relay_state \<Rightarrow> relay_state" where
  "inline_on_pong ws s = upd_conn ws (\<lambda>k. k\<lparr>isAlive := True\<rparr>) s"

definition inline_on_close :: "cid \<Rightarrow> relay_state \<Rightarrow> relay_state" where
  "inline_on_close ws s =
     (if \<not> truthy (sessionCode (conns s ws)) then s
      else
        let code = sessionCode (conns s ws);
            s1 = (if waitingHosts s code = Some ws then waitingHosts_delete code s else s)
        in (case sessions s1 code of
              None \<Rightarrow> s1
            | Some (host, client) \<Rightarrow>
                let other = (if role (conns s1 ws) = Some Host then client else host);
                    s2 = (if readyState (conns s1 other) = OPEN
                          then send other Peer_disconnected s1 else s1)
                in s2\<lparr>sessions := (sessions s2)(code := None)\<rparr>))"

definition inline_sweepOne :: "cid \<Rightarrow> relay_state \<Rightarrow> relay_state" where
  "inline_sweepOne ws s =
     (if \<not> isAlive (conns s ws) then terminate ws s
      else ping ws (upd_conn ws (\<lambda>k. k\<lparr>isAlive := False\<rparr>) s))"

fun inline_sweepAll :: "cid list \<Rightarrow> relay_state \<Rightarrow> relay_state" where
  "inline_sweepAll [] s = s"
| "inline_sweepAll (ws # wss) s = inline_sweepAll wss (inline_sweepOne ws s)"

definition inline_sweep :: "relay_state \<Rightarrow> relay_state" where
  "inline_sweep s = inline_sweepAll (clients s) s"

text \<open>The events of the inline variant; none of its handlers outside the \<^verbatim>\<open>try\<close> can throw.\<close>

definition inline_step :: "event \<Rightarrow> relay_state \<Rightarrow> relay_state" where
  "inline_step ev s =
     (case ev of
        Connection \<Rightarrow> on_connection s
      | Message ws parsed \<Rightarrow>
          if ws < nextId s \<and> readyState (conns s ws) = OPEN
          then inline_on_message ws parsed s else s
      | Pong ws \<Rightarrow>
          if ws < nextId s \<and> readyState (conns s ws) = OPEN then inline_on_pong ws s else s
      | Close ws \<Rightarrow>
          if ws < nextId s \<and> readyState (conns s ws) \<noteq> CLOSED
          then inline_on_close ws ((upd_conn ws (\<lambda>k. k\<lparr>readyState := CLOSED\<rparr>) s)
                                     \<lparr>clients := removeAll ws (clients s)\<rparr>)
          else s
      | Sweep \<Rightarrow> inline_sweep s)"

fun inline_run :: "event list \<Rightarrow> relay_state \<Rightarrow> relay_state" where
  "inline_run [] s = s"
| "inline_run (e # es) s = inline_run es (inline_step e s)"

section \<open>\<^verbatim>\<open>handleRegisterHost\<close> of the third variant\<close>

text \<open>
  The same checks as \<^verbatim>\<open>registerHost\<close>, with another text for a code in use and with one
  log only, after the registration and before the reply.
\<close>

definition handleRegisterHost :: "cid \<Rightarrow> jsval \<Rightarrow> relay_state \<Rightarrow> outcome" where
  "handleRegisterHost ws message s =
     (case destructure message of
        Inl e \<Rightarrow> Inl (e, s)
      | Inr (code, device_id, device_name) \<Rightarrow>
          if invalidCode code then Inr (send ws (Error_frame Codigo_invalido) s)
          else if waitingHosts s code \<noteq> None
          then Inr (send ws (Error_frame Codigo_ya_en_uso) s)
          else
            let s1 = upd_conn ws (\<lambda>k. k\<lparr>sessionCode := code, role := Some Host,
                                          deviceId := device_id, deviceName := device_name\<rparr>) s;
                s2 = waitingHosts_set code ws s1
            in if template_throws [device_name, code] then Inl (TypeError, s2)
               else Inr (send ws (Registered code) s2))"

section \<open>Invariants\<close>

text \<open>
  Two states agree on everything but the liveness flag and the ping count of the
  connections: what the sweep does to a connection it probes.
\<close>

definition same_but_liveness :: "relay_state \<Rightarrow> relay_state \<Rightarrow> bool" where
  "same_but_liveness s t \<longleftrightarrow>
     waitingEntries s = waitingEntries t \<and> sessions s = sessions t \<and>
     clients s = clients t \<and> nextId s = nextId t \<and> exited s = exited t \<and>
     (\<forall>c. sessionCode (conns s c) = sessionCode (conns t c) \<and>
          role (conns s c) = role (conns t c) \<and>
          deviceId (conns s c) = deviceId (conns t c) \<and>
          deviceName (conns s c) = deviceName (conns t c) \<and>
          readyState (conns s c) = readyState (conns t c) \<and>
          sent (conns s c) = sent (conns t c))"

text \<open>
  The codes the server holds can be converted to strings: the code of every connection
  and every key of \<^verbatim>\<open>waitingHosts\<close>. \<^verbatim>\<open>registerHost\<close> logs a code before it stores it,
  so every state the server reaches has this property.
\<close>

definition printable_codes :: "relay_state \<Rightarrow> bool" where
  "printable_codes s \<longleftrightarrow>
     (\<forall>c. \<not> toString_throws (sessionCode (conns s c))) \<and>
     \<not> template_throws (map fst (waitingEntries s))"

section \<open>Scenarios\<close>

text \<open>
  The code of the scenario of the specification, and four endpoints \<open>A\<close>, \<open>B\<close>, \<open>C\<close>,
  \<open>D\<close>, which become the connections 0, 1, 2 and 3 in the order in which they connect.
\<close>

definition code_ABC :: jsval where
  "code_ABC = JStr ''ABC123XYZ''"

definition A_registers :: event where
  "A_registers = Message 0 (Some (register_host_msg 1 code_ABC (JStr ''idA'') (JStr ''A'')))"

definition B_connects :: event where
  "B_connects = Message 1 (Some (connect_to_host_msg 2 code_ABC (JStr ''idB'') (JStr ''B'')))"

definition C_registers :: event where
  "C_registers = Message 2 (Some (register_host_msg 3 code_ABC (JStr ''idC'') (JStr ''C'')))"

definition D_connects :: event where
  "D_connects = Message 3 (Some (connect_to_host_msg 4 code_ABC (JStr ''idD'') (JStr ''D'')))"

definition A_relays :: event where
  "A_relays = Message 0 (Some (relay_msg 5 (JStr ''P'')))"

definition C_relays :: event where
  "C_relays = Message 2 (Some (relay_msg 5 (JStr ''P'')))"

text \<open>\<open>A\<close> registers the code and \<open>B\<close> is paired with it.\<close>

definition paired :: relay_state where
  "paired = run [Connection, Connection, A_registers, B_connects] init_state"

text \<open>While the session of \<open>A\<close> and \<open>B\<close> exists, \<open>C\<close> registers the same code.\<close>

definition reused_while_paired :: relay_state where
  "reused_while_paired = run [Connection, C_registers] paired"

text \<open>The client \<open>B\<close> leaves; then \<open>C\<close> registers the code and \<open>D\<close> is paired with it.\<close>

definition reused_after_leave :: relay_state where
  "reused_after_leave = run [Close 1, Connection, Connection, C_registers, D_connects] paired"

text \<open>
  A second code, the frame with which \<open>B\<close> registers it and the frame with which
  \<open>A\<close> asks for it.
\<close>

definition code_QRS :: jsval where
  "code_QRS = JStr ''QRS456TUV''"

definition B_registers_QRS :: event where
  "B_registers_QRS = Message 1 (Some (register_host_msg 6 code_QRS (JStr ''idB'') (JStr ''B'')))"

definition A_connects_QRS :: event where
  "A_connects_QRS = Message 0 (Some (connect_to_host_msg 7 code_QRS (JStr ''idA'') (JStr ''A'')))"

text \<open>
  The decoded \<^verbatim>\<open>{"toString":1}\<close>: an object that cannot be converted to a string. The
  frames with which \<open>B\<close> asks for the code of \<open>A\<close> under this device name, \<open>B\<close> asks for
  this value as a code, and \<open>A\<close> asks for its own code under this device name.
\<close>

definition unprintable :: jsval where
  "unprintable = JObj 9 [(''toString'', JNum 1)]"

definition B_connects_unprintable :: event where
  "B_connects_unprintable =
     Message 1 (Some (connect_to_host_msg 2 code_ABC (JStr ''idB'') unprintable))"

definition B_asks_unprintable :: event where
  "B_asks_unprintable =
     Message 1 (Some (connect_to_host_msg 2 unprintable (JStr ''idB'') (JStr ''B'')))"

definition A_connects_own_unprintable :: event where
  "A_connects_own_unprintable =
     Message 0 (Some (connect_to_host_msg 7 code_ABC (JStr ''idA'') unprintable))"

text \<open>One connection that has sent nothing.\<close>

definition alone :: relay_state where
  "alone = run [Connection] init_state"

text \<open>\<open>A\<close> waits under the code; \<open>B\<close> is connected and has sent nothing.\<close>

definition A_waiting :: relay_state where
  "A_waiting = run [Connection, Connection, A_registers] init_state"

text \<open>The same in the inline variant.\<close>

definition inline_A_waiting :: relay_state where
  "inline_A_waiting = inline_run [Connection, Connection, A_registers] init_state"

text \<open>\<open>A\<close> waits under the first code and \<open>B\<close> under the second.\<close>

definition two_hosts :: relay_state where
  "two_hosts = run [B_registers_QRS] A_waiting"

text \<open>
  \<open>A\<close> and \<open>B\<close> are paired, a sweep has probed both, and only \<open>B\<close> has answered: at the
  next sweep the flag of the host \<open>A\<close> is false. The same in the inline variant.
\<close>

definition host_silent :: relay_state where
  "host_silent = run [Sweep, Pong 1] paired"

definition inline_host_silent :: relay_state where
  "inline_host_silent =
     inline_run [Connection, Connection, A_registers, B_connects, Sweep, Pong 1] init_state"

section \<open>Evaluation\<close>

lemma waitingHosts_simps:
  "waitingHosts (waitingHosts_set code ws s) = (waitingHosts s)(code \<mapsto> ws)"
  "waitingHosts (waitingHosts_delete code s) = (waitingHosts s)(code := None)"
  "waitingHosts (upd_conn c f s) = waitingHosts s"
  "waitingHosts (send c m s) = waitingHosts s"
  "waitingHosts (s\<lparr>sessions := x\<rparr>) = waitingHosts s"
  "waitingHosts (s\<lparr>conns := y\<rparr>) = waitingHosts s"
  "waitingHosts (s\<lparr>clients := z\<rparr>) = waitingHosts s"
  "waitingHosts (s\<lparr>exited := e\<rparr>) = waitingHosts s"
  "waitingHosts (s\<lparr>nextId := n\<rparr>) = waitingHosts s"
  by (simp_all add: waitingHosts_def waitingHosts_set_def waitingHosts_delete_def
      upd_conn_def send_def update_conv' delete_conv')

lemma registry_update_fields:
  "conns (waitingHosts_set code ws s) = conns s"
  "conns (waitingHosts_delete code s) = conns s"
  "sessions (waitingHosts_set code ws s) = sessions s"
  "sessions (waitingHosts_delete code s) = sessions s"
  "clients (waitingHosts_set code ws s) = clients s"
  "clients (waitingHosts_delete code s) = clients s"
  "nextId (waitingHosts_set code ws s) = nextId s"
  "nextId (waitingHosts_delete code s) = nextId s"
  "exited (waitingHosts_set code ws s) = exited s"
  "exited (waitingHosts_delete code s) = exited s"
  "waitingEntries (waitingHosts_set code ws s) = AList.update code ws (waitingEntries s)"
  "waitingEntries (waitingHosts_delete code s) = AList.delete code (waitingEntries s)"
  by (simp_all add: waitingHosts_set_def waitingHosts_delete_def)

lemma state_of_simps:
  "state_of (Inr s) = s" "state_of (Inl (e, s)) = s"
  "uncaught (Inr s) = s" "uncaught (Inl (e, s)) = s\<lparr>exited := Some e\<rparr>"
  by (simp_all add: state_of_def uncaught_def)

text \<open>The definitions that evaluate a handler on a concrete state.\<close>

lemmas handler_defs =
  step_def deliver_def on_connection_def on_message_def on_pong_def on_close_def
  handleMessage_def registerHost_def connectToHost_def hostNotFound_def relayData_def
  handleDisconnect_def destructure_def invalidCode_def lengthOrZero_def template_throws_def
  orUnknown_def send_def ping_def terminate_def upd_conn_def newConn_def
  pingInterval_def sweepOne_def Let_def state_of_simps
  waitingHosts_def waitingHosts_set_def waitingHosts_delete_def

lemmas inline_defs =
  inline_step_def inline_on_message_def inline_try_def inline_on_pong_def
  inline_on_close_def inline_sweep_def inline_sweepOne_def on_connection_def
  destructure_def template_throws_def send_def ping_def terminate_def upd_conn_def
  newConn_def Let_def state_of_simps
  waitingHosts_def waitingHosts_set_def waitingHosts_delete_def

lemmas scenario_defs =
  init_state_def code_ABC_def code_QRS_def unprintable_def register_host_msg_def
  connect_to_host_msg_def relay_msg_def A_registers_def B_connects_def C_registers_def
  D_connects_def A_relays_def C_relays_def B_registers_QRS_def
  A_connects_QRS_def B_connects_unprintable_def B_asks_unprintable_def
  A_connects_own_unprintable_def

lemma run_append: "run (es @ fs) s = run fs (run es s)"
  by (induction es arbitrary: s) simp_all

lemma inline_run_append: "inline_run (es @ fs) s = inline_run fs (inline_run es s)"
  by (induction es arbitrary: s) simp_all

lemma init_state_simps:
  "waitingHosts init_state = Map.empty" "waitingEntries init_state = []"
  "sessions init_state = Map.empty" "exited init_state = None"
  "nextId init_state = 0" "clients init_state = []" "conns init_state c = newConn"
  by (simp_all add: init_state_def waitingHosts_def)

lemma alone_state:
  "waitingHosts alone = Map.empty" "waitingEntries alone = []" "sessions alone = Map.empty"
  "exited alone = None" "nextId alone = 1" "clients alone = [0]" "conns alone c = newConn"
  by (simp_all add: alone_def init_state_simps handler_defs fun_eq_iff)

lemma A_waiting_registry:
  "waitingHosts A_waiting = [code_ABC \<mapsto> 0]" "waitingEntries A_waiting = [(code_ABC, 0)]"
  "sessions A_waiting = Map.empty" "exited A_waiting = None"
  "nextId A_waiting = 2" "clients A_waiting = [0, 1]"
  by (simp_all add: A_waiting_def init_state_simps scenario_defs handler_defs fun_eq_iff)

lemma A_waiting_conns:
  "conns A_waiting 0 = \<lparr>isAlive = True, sessionCode = code_ABC, role = Some Host,
      deviceId = JStr ''idA'', deviceName = JStr ''A'', readyState = OPEN,
      sent = [Registered code_ABC], pings = 0\<rparr>"
  "0 < c \<Longrightarrow> conns A_waiting c = newConn"
  by (simp_all add: A_waiting_def init_state_simps scenario_defs handler_defs)

lemma paired_registry:
  "waitingHosts paired = Map.empty" "waitingEntries paired = []"
  "sessions paired = [code_ABC \<mapsto> (0, 1)]" "exited paired = None"
  "nextId paired = 2"
  "clients paired = [0, 1]"
  by (simp_all add: paired_def init_state_simps scenario_defs handler_defs fun_eq_iff)

lemma paired_conns:
  "conns paired 0 = \<lparr>isAlive = True, sessionCode = code_ABC, role = Some Host,
      deviceId = JStr ''idA'', deviceName = JStr ''A'', readyState = OPEN,
      sent = [Registered code_ABC, Peer_connected (JStr ''idB'') (JStr ''B'')], pings = 0\<rparr>"
  "conns paired (Suc 0) = \<lparr>isAlive = True, sessionCode = code_ABC, role = Some Client,
      deviceId = JStr ''idB'', deviceName = JStr ''B'', readyState = OPEN,
      sent = [Connected_to_host (JStr ''idA'') (JStr ''A'')], pings = 0\<rparr>"
  "1 < c \<Longrightarrow> conns paired c = newConn"
  by (simp_all add: paired_def init_state_simps scenario_defs handler_defs)

lemma reused_while_paired_state:
  "waitingHosts reused_while_paired = [code_ABC \<mapsto> 2]"
  "waitingEntries reused_while_paired = [(code_ABC, 2)]"
  "sessions reused_while_paired = [code_ABC \<mapsto> (0, 1)]"
  "exited reused_while_paired = None" "nextId reused_while_paired = 3"
  "conns reused_while_paired 0 = conns paired 0"
  "conns reused_while_paired (Suc 0) = conns paired (Suc 0)"
  "conns reused_while_paired 2 = \<lparr>isAlive = True, sessionCode = code_ABC, role = Some Host,
      deviceId = JStr ''idC'', deviceName = JStr ''C'', readyState = OPEN,
      sent = [Registered code_ABC], pings = 0\<rparr>"
  by (simp_all add: reused_while_paired_def paired_registry paired_conns scenario_defs
      handler_defs fun_eq_iff)

lemma reused_after_leave_state:
  "waitingHosts reused_after_leave = Map.empty" "waitingEntries reused_after_leave = []"
  "sessions reused_after_leave = [code_ABC \<mapsto> (2, 3)]"
  "exited reused_after_leave = None" "nextId reused_after_leave = 4"
  "conns reused_after_leave 0 = \<lparr>isAlive = True, sessionCode = code_ABC, role = Some Host,
      deviceId = JStr ''idA'', deviceName = JStr ''A'', readyState = OPEN,
      sent = [Registered code_ABC, Peer_connected (JStr ''idB'') (JStr ''B''),
              Peer_disconnected],
      pings = 0\<rparr>"
  "conns reused_after_leave 3 = \<lparr>isAlive = True, sessionCode = code_ABC, role = Some Client,
      deviceId = JStr ''idD'', deviceName = JStr ''D'', readyState = OPEN,
      sent = [Connected_to_host (JStr ''idC'') (JStr ''C'')], pings = 0\<rparr>"
  by (simp_all add: reused_after_leave_def paired_registry paired_conns scenario_defs
      handler_defs fun_eq_iff)

lemma two_hosts_state:
  "waitingHosts two_hosts = [code_ABC \<mapsto> 0, code_QRS \<mapsto> 1]"
  "waitingEntries two_hosts = [(code_ABC, 0), (code_QRS, 1)]" "sessions two_hosts = Map.empty"
  "exited two_hosts = None" "nextId two_hosts = 2" "clients two_hosts = [0, 1]"
  "conns two_hosts 0 = conns A_waiting 0"
  "conns two_hosts (Suc 0) = \<lparr>isAlive = True, sessionCode = code_QRS, role = Some Host,
      deviceId = JStr ''idB'', deviceName = JStr ''B'', readyState = OPEN,
      sent = [Registered code_QRS], pings = 0\<rparr>"
  by (simp_all add: two_hosts_def A_waiting_registry A_waiting_conns scenario_defs
      handler_defs fun_eq_iff)

lemma host_silent_state:
  "waitingEntries host_silent = []" "sessions host_silent = [code_ABC \<mapsto> (0, 1)]"
  "exited host_silent = None" "nextId host_silent = 2" "clients host_silent = [0, 1]"
  "conns host_silent 0 = (conns paired 0)\<lparr>isAlive := False, pings := 1\<rparr>"
  "conns host_silent (Suc 0) = (conns paired (Suc 0))\<lparr>pings := 1\<rparr>"
  by (simp_all add: host_silent_def paired_registry paired_conns handler_defs fun_eq_iff)

lemma inline_A_waiting_state:
  "waitingHosts inline_A_waiting = [code_ABC \<mapsto> 0]"
  "waitingEntries inline_A_waiting = [(code_ABC, 0)]" "sessions inline_A_waiting = Map.empty"
  "nextId inline_A_waiting = 2" "clients inline_A_waiting = [0, 1]"
  "conns inline_A_waiting 0 = \<lparr>isAlive = True, sessionCode = code_ABC, role = Some Host,
      deviceId = JStr ''idA'', deviceName = JStr ''A'', readyState = OPEN,
      sent = [Registered code_ABC], pings = 0\<rparr>"
  by (simp_all add: inline_A_waiting_def init_state_simps scenario_defs inline_defs fun_eq_iff)

lemma inline_host_silent_state:
  "waitingEntries inline_host_silent = []" "sessions inline_host_silent = [code_ABC \<mapsto> (0, 1)]"
  "nextId inline_host_silent = 2" "clients inline_host_silent = [0, 1]"
  "conns inline_host_silent 0 = (conns paired 0)\<lparr>isAlive := False, pings := 1\<rparr>"
  "conns inline_host_silent (Suc 0) = (conns paired (Suc 0))\<lparr>pings := 1\<rparr>"
  by (simp_all add: inline_host_silent_def init_state_simps paired_conns scenario_defs
      inline_defs fun_eq_iff)

section \<open>What the handlers leave alone\<close>

lemma destructure_cases:
  "(destructure message = Inl TypeError \<and> (\<forall>k. getProp message k = Inl TypeError)) \<or>
   (\<exists>c d n. destructure message = Inr (c, d, n) \<and> getProp message ''code'' = Inr c \<and>
      getProp message ''device_id'' = Inr d \<and> getProp message ''device_name'' = Inr n)"
  by (cases message) (simp_all add: destructure_def)

lemma send_fields:
  "isAlive (conns (send w m s) c) = isAlive (conns s c)"
  "readyState (conns (send w m s) c) = readyState (conns s c)"
  "pings (conns (send w m s) c) = pings (conns s c)"
  "role (conns (send w m s) c) = role (conns s c)"
  "sessionCode (conns (send w m s) c) = sessionCode (conns s c)"
  "deviceId (conns (send w m s) c) = deviceId (conns s c)"
  "deviceName (conns (send w m s) c) = deviceName (conns s c)"
  "clients (send w m s) = clients s" "nextId (send w m s) = nextId s"
  "waitingEntries (send w m s) = waitingEntries s" "sessions (send w m s) = sessions s"
  "exited (send w m s) = exited s"
  by (simp_all add: send_def upd_conn_def)

lemma send_sent:
  "sent (conns (send w m s) c) = (if c = w then sent (conns s c) @ [m] else sent (conns s c))"
  by (simp add: send_def upd_conn_def)

lemma handleDisconnect_fields:
  "isAlive (conns (state_of (handleDisconnect ws s)) c) = isAlive (conns s c)"
  "readyState (conns (state_of (handleDisconnect ws s)) c) = readyState (conns s c)"
  "pings (conns (state_of (handleDisconnect ws s)) c) = pings (conns s c)"
  "role (conns (state_of (handleDisconnect ws s)) c) = role (conns s c)"
  "sessionCode (conns (state_of (handleDisconnect ws s)) c) = sessionCode (conns s c)"
  "deviceId (conns (state_of (handleDisconnect ws s)) c) = deviceId (conns s c)"
  "deviceName (conns (state_of (handleDisconnect ws s)) c) = deviceName (conns s c)"
  "clients (state_of (handleDisconnect ws s)) = clients s"
  "nextId (state_of (handleDisconnect ws s)) = nextId s"
  "exited (state_of (handleDisconnect ws s)) = exited s"
  by (simp_all add: handleDisconnect_def send_fields registry_update_fields state_of_simps
      Let_def split: option.splits)

lemma handleDisconnect_returns:
  "\<not> toString_throws (sessionCode (conns s ws)) \<Longrightarrow>
   handleDisconnect ws s = Inr (state_of (handleDisconnect ws s))"
  by (simp add: handleDisconnect_def template_throws_def state_of_simps Let_def
      split: option.splits)

lemma registerHost_fields:
  "isAlive (conns (state_of (registerHost ws message s)) c) = isAlive (conns s c)"
  "readyState (conns (state_of (registerHost ws message s)) c) = readyState (conns s c)"
  "pings (conns (state_of (registerHost ws message s)) c) = pings (conns s c)"
  "clients (state_of (registerHost ws message s)) = clients s"
  "nextId (state_of (registerHost ws message s)) = nextId s"
  "exited (state_of (registerHost ws message s)) = exited s"
  "c \<noteq> ws \<Longrightarrow> conns (state_of (registerHost ws message s)) c = conns s c"
  "role (conns s ws) \<noteq> None \<Longrightarrow> role (conns (state_of (registerHost ws message s)) ws) \<noteq> None"
  by (auto simp: registerHost_def send_fields registry_update_fields state_of_simps
        upd_conn_def send_def Let_def split: sum.splits prod.splits)

lemma connectToHost_fields:
  "isAlive (conns (state_of (connectToHost ws message s)) c) = isAlive (conns s c)"
  "readyState (conns (state_of (connectToHost ws message s)) c) = readyState (conns s c)"
  "pings (conns (state_of (connectToHost ws message s)) c) = pings (conns s c)"
  "clients (state_of (connectToHost ws message s)) = clients s"
  "nextId (state_of (connectToHost ws message s)) = nextId s"
  "exited (state_of (connectToHost ws message s)) = exited s"
  "c \<noteq> ws \<Longrightarrow> role (conns (state_of (connectToHost ws message s)) c) = role (conns s c)"
  "c \<noteq> ws \<Longrightarrow>
     sessionCode (conns (state_of (connectToHost ws message s)) c) = sessionCode (conns s c)"
  "role (conns s ws) \<noteq> None \<Longrightarrow> role (conns (state_of (connectToHost ws message s)) ws) \<noteq> None"
  by (auto simp: connectToHost_def hostNotFound_def registry_update_fields state_of_simps
        upd_conn_def send_def Let_def split: sum.splits prod.splits option.splits)

lemma relayData_fields:
  "isAlive (conns (state_of (relayData ws message s)) c) = isAlive (conns s c)"
  "readyState (conns (state_of (relayData ws message s)) c) = readyState (conns s c)"
  "pings (conns (state_of (relayData ws message s)) c) = pings (conns s c)"
  "role (conns (state_of (relayData ws message s)) c) = role (conns s c)"
  "sessionCode (conns (state_of (relayData ws message s)) c) = sessionCode (conns s c)"
  "deviceId (conns (state_of (relayData ws message s)) c) = deviceId (conns s c)"
  "deviceName (conns (state_of (relayData ws message s)) c) = deviceName (conns s c)"
  "clients (state_of (relayData ws message s)) = clients s"
  "nextId (state_of (relayData ws message s)) = nextId s"
  "exited (state_of (relayData ws message s)) = exited s"
  "waitingEntries (state_of (relayData ws message s)) = waitingEntries s"
  "sessions (state_of (relayData ws message s)) = sessions s"
  by (auto simp: relayData_def send_fields state_of_simps Let_def
           split: sum.splits prod.splits option.splits)

lemma handleMessage_cases:
  "getProp message ''type'' = Inr (JStr ''register_host'') \<and>
     handleMessage ws message s = registerHost ws message s \<or>
   getProp message ''type'' = Inr (JStr ''connect_to_host'') \<and>
     handleMessage ws message s = connectToHost ws message s \<or>
   getProp message ''type'' = Inr (JStr ''relay'') \<and>
     handleMessage ws message s = relayData ws message s \<or>
   handleMessage ws message s = Inr (send ws Pong_frame s) \<or>
   handleMessage ws message s = Inr s \<or>
   handleMessage ws message s = Inl (TypeError, s)"
proof (cases "getProp message ''type''")
  case (Inl e)
  then show ?thesis by (cases e) (simp add: handleMessage_def)
next
  case (Inr t)
  then show ?thesis by (simp add: handleMessage_def)
qed

lemma on_message_cases:
  "(\<exists>m. parsed = Some m \<and> getProp m ''type'' = Inr (JStr ''register_host'') \<and>
        on_message ws parsed s = state_of (registerHost ws m s)) \<or>
   (\<exists>m. parsed = Some m \<and> getProp m ''type'' = Inr (JStr ''connect_to_host'') \<and>
        on_message ws parsed s = state_of (connectToHost ws m s)) \<or>
   (\<exists>m. parsed = Some m \<and> getProp m ''type'' = Inr (JStr ''relay'') \<and>
        on_message ws parsed s = state_of (relayData ws m s)) \<or>
   on_message ws parsed s = send ws Pong_frame s \<or>
   on_message ws parsed s = s"
proof (cases parsed)
  case None
  then show ?thesis by (simp add: on_message_def)
next
  case (Some m)
  with handleMessage_cases [of m ws s] show ?thesis
    by (auto simp: on_message_def state_of_simps)
qed

lemma on_message_frame:
  "isAlive (conns (on_message ws p s) c) = isAlive (conns s c) \<and>
   readyState (conns (on_message ws p s) c) = readyState (conns s c) \<and>
   pings (conns (on_message ws p s) c) = pings (conns s c) \<and>
   clients (on_message ws p s) = clients s \<and>
   nextId (on_message ws p s) = nextId s \<and>
   exited (on_message ws p s) = exited s \<and>
   (c \<noteq> ws \<longrightarrow> role (conns (on_message ws p s) c) = role (conns s c)) \<and>
   (c \<noteq> ws \<longrightarrow> sessionCode (conns (on_message ws p s) c) = sessionCode (conns s c)) \<and>
   (role (conns s ws) \<noteq> None \<longrightarrow> role (conns (on_message ws p s) ws) \<noteq> None)"
  using on_message_cases [of p ws s]
proof (elim disjE exE conjE)
  fix m
  assume "on_message ws p s = state_of (registerHost ws m s)"
  then show ?thesis
    using registerHost_fields(8) [of s ws m]
    by (simp add: registerHost_fields(1-7))
next
  fix m
  assume "on_message ws p s = state_of (connectToHost ws m s)"
  then show ?thesis
    using connectToHost_fields(9) [of s ws m]
    by (simp add: connectToHost_fields(1-8))
next
  fix m
  assume "on_message ws p s = state_of (relayData ws m s)"
  then show ?thesis by (simp add: relayData_fields)
next
  assume "on_message ws p s = send ws Pong_frame s"
  then show ?thesis by (simp add: send_fields)
next
  assume "on_message ws p s = s"
  then show ?thesis by simp
qed

section \<open>Who binds a role\<close>

lemma registerHost_binding:
  "(role (conns (state_of (registerHost ws message s)) ws) = role (conns s ws) \<and>
    sessionCode (conns (state_of (registerHost ws message s)) ws) = sessionCode (conns s ws)) \<or>
   (\<exists>code device_id device_name.
      destructure message = Inr (code, device_id, device_name) \<and>
      getProp message ''code'' = Inr code \<and>
      \<not> template_throws [code, device_name, device_id] \<and>
      \<not> invalidCode code \<and> waitingHosts s code = None \<and>
      role (conns (state_of (registerHost ws message s)) ws) = Some Host \<and>
      sessionCode (conns (state_of (registerHost ws message s)) ws) = code)"
  using destructure_cases [of message]
  by (auto simp: registerHost_def send_fields registry_update_fields state_of_simps
        upd_conn_def Let_def split: if_splits)

lemma connectToHost_binding:
  "(role (conns (state_of (connectToHost ws message s)) ws) = role (conns s ws) \<and>
    sessionCode (conns (state_of (connectToHost ws message s)) ws)
      = sessionCode (conns s ws)) \<or>
   (\<exists>code. getProp message ''code'' = Inr code \<and>
      (\<exists>h. waitingHosts s code = Some h \<and> readyState (conns s h) = OPEN) \<and>
      role (conns (state_of (connectToHost ws message s)) ws) = Some Client \<and>
      sessionCode (conns (state_of (connectToHost ws message s)) ws) = code)"
  using destructure_cases [of message]
  by (auto simp: connectToHost_def hostNotFound_def send_fields registry_update_fields
        state_of_simps upd_conn_def send_def Let_def split: option.splits if_splits)

lemma on_message_rebinding:
  assumes "s' = on_message ws (Some message) s"
    and "role (conns s' ws) \<noteq> role (conns s ws) \<or>
         sessionCode (conns s' ws) \<noteq> sessionCode (conns s ws)"
  shows "\<exists>code. getProp message ''code'' = Inr code \<and> sessionCode (conns s' ws) = code \<and>
     (getProp message ''type'' = Inr (JStr ''register_host'') \<and> \<not> invalidCode code \<and>
        waitingHosts s code = None \<and> role (conns s' ws) = Some Host \<or>
      getProp message ''type'' = Inr (JStr ''connect_to_host'') \<and>
        (\<exists>h. waitingHosts s code = Some h \<and> readyState (conns s h) = OPEN) \<and>
        role (conns s' ws) = Some Client)"
  using on_message_cases [of "Some message" ws s]
proof (elim disjE exE conjE)
  fix m
  assume "Some message = Some m" "getProp m ''type'' = Inr (JStr ''register_host'')"
    and "on_message ws (Some message) s = state_of (registerHost ws m s)"
  with registerHost_binding [of ws message s] assms show ?thesis by auto
next
  fix m
  assume "Some message = Some m" "getProp m ''type'' = Inr (JStr ''connect_to_host'')"
    and "on_message ws (Some message) s = state_of (connectToHost ws m s)"
  with connectToHost_binding [of ws message s] assms show ?thesis by auto
next
  fix m
  assume "on_message ws (Some message) s = state_of (relayData ws m s)"
  with assms show ?thesis by (simp add: relayData_fields)
next
  assume "on_message ws (Some message) s = send ws Pong_frame s"
  with assms show ?thesis by (simp add: send_fields)
next
  assume "on_message ws (Some message) s = s"
  with assms show ?thesis by simp
qed

lemma on_message_register_accepted:
  assumes "getProp message ''type'' = Inr (JStr ''register_host'')"
    and "destructure message = Inr (code, device_id, device_name)"
    and "\<not> template_throws [code, device_name, device_id]"
    and "\<not> invalidCode code" and "waitingHosts s code = None"
  shows "role (conns (on_message ws (Some message) s) ws) = Some Host \<and>
         sessionCode (conns (on_message ws (Some message) s) ws) = code"
  using assms
  by (auto simp: on_message_def handleMessage_def registerHost_def send_fields
        registry_update_fields state_of_simps upd_conn_def Let_def)

lemma on_message_connect_accepted:
  assumes "getProp message ''type'' = Inr (JStr ''connect_to_host'')"
    and "getProp message ''code'' = Inr code"
    and "waitingHosts s code = Some h" and "readyState (conns s h) = OPEN"
  shows "role (conns (on_message ws (Some message) s) ws) = Some Client \<and>
         sessionCode (conns (on_message ws (Some message) s) ws) = code"
  using assms destructure_cases [of message]
  by (auto simp: on_message_def handleMessage_def connectToHost_def send_fields
        registry_update_fields state_of_simps upd_conn_def send_def Let_def)

section \<open>The sweep\<close>

lemma terminate_fields:
  "isAlive (conns (terminate w s) c) = isAlive (conns s c)"
  "pings (conns (terminate w s) c) = pings (conns s c)"
  "role (conns (terminate w s) c) = role (conns s c)"
  "sessionCode (conns (terminate w s) c) = sessionCode (conns s c)"
  "deviceId (conns (terminate w s) c) = deviceId (conns s c)"
  "deviceName (conns (terminate w s) c) = deviceName (conns s c)"
  "sent (conns (terminate w s) c) = sent (conns s c)"
  "clients (terminate w s) = clients s" "nextId (terminate w s) = nextId s"
  "exited (terminate w s) = exited s"
  "waitingEntries (terminate w s) = waitingEntries s" "sessions (terminate w s) = sessions s"
  "c \<noteq> w \<Longrightarrow> readyState (conns (terminate w s) c) = readyState (conns s c)"
  "readyState (conns (terminate w s) w)
     = (if readyState (conns s w) = CLOSED then CLOSED else CLOSING)"
  by (simp_all add: terminate_def upd_conn_def)

lemma sweepOne_cases:
  "(\<not> isAlive (conns s w) \<and>
      (\<exists>e. sweepOne w s = Inl (e, state_of (handleDisconnect w s))) \<or>
    \<not> isAlive (conns s w) \<and>
      sweepOne w s = Inr (terminate w (state_of (handleDisconnect w s)))) \<or>
   isAlive (conns s w) \<and>
      sweepOne w s = Inr (ping w (upd_conn w (\<lambda>k. k\<lparr>isAlive := False\<rparr>) s))"
  by (cases "handleDisconnect w s") (auto simp: sweepOne_def state_of_simps)

lemma sweepOne_other:
  "c \<noteq> w \<Longrightarrow> isAlive (conns (state_of (sweepOne w s)) c) = isAlive (conns s c)"
  "c \<noteq> w \<Longrightarrow> readyState (conns (state_of (sweepOne w s)) c) = readyState (conns s c)"
  "c \<noteq> w \<Longrightarrow> pings (conns (state_of (sweepOne w s)) c) = pings (conns s c)"
  using sweepOne_cases [of s w]
  by (auto simp: state_of_simps terminate_fields handleDisconnect_fields ping_def upd_conn_def)

lemma sweepOne_alive:
  "isAlive (conns s w) \<Longrightarrow>
   sweepOne w s = Inr (ping w (upd_conn w (\<lambda>k. k\<lparr>isAlive := False\<rparr>) s))"
  by (simp add: sweepOne_def)

lemma sweepOne_binding:
  "role (conns (state_of (sweepOne w s)) c) = role (conns s c)"
  "sessionCode (conns (state_of (sweepOne w s)) c) = sessionCode (conns s c)"
  "deviceId (conns (state_of (sweepOne w s)) c) = deviceId (conns s c)"
  "deviceName (conns (state_of (sweepOne w s)) c) = deviceName (conns s c)"
  "clients (state_of (sweepOne w s)) = clients s" "nextId (state_of (sweepOne w s)) = nextId s"
  "exited (state_of (sweepOne w s)) = exited s"
  using sweepOne_cases [of s w]
  by (auto simp: state_of_simps terminate_fields handleDisconnect_fields ping_def upd_conn_def)

lemma sweepAll_unfold:
  "state_of (sweepAll (w # wss) s) =
     (if isl (sweepOne w s) then state_of (sweepOne w s)
      else state_of (sweepAll wss (state_of (sweepOne w s))))"
  by (cases "sweepOne w s") (auto simp: state_of_simps)

lemma sweepAll_binding:
  "role (conns (state_of (sweepAll wss s)) c) = role (conns s c)"
  "sessionCode (conns (state_of (sweepAll wss s)) c) = sessionCode (conns s c)"
  "deviceId (conns (state_of (sweepAll wss s)) c) = deviceId (conns s c)"
  "deviceName (conns (state_of (sweepAll wss s)) c) = deviceName (conns s c)"
  "clients (state_of (sweepAll wss s)) = clients s"
  "nextId (state_of (sweepAll wss s)) = nextId s"
  "exited (state_of (sweepAll wss s)) = exited s"
  by (induction wss arbitrary: s)
     (simp_all add: state_of_simps sweepAll_unfold sweepOne_binding del: sweepAll.simps(2))

lemma sweepAll_notin:
  "c \<notin> set wss \<Longrightarrow> isAlive (conns (state_of (sweepAll wss s)) c) = isAlive (conns s c)"
  "c \<notin> set wss \<Longrightarrow> readyState (conns (state_of (sweepAll wss s)) c) = readyState (conns s c)"
  "c \<notin> set wss \<Longrightarrow> pings (conns (state_of (sweepAll wss s)) c) = pings (conns s c)"
  by (induction wss arbitrary: s)
     (simp_all add: state_of_simps sweepAll_unfold sweepOne_other del: sweepAll.simps(2))

lemma sweepAll_Cons_returns:
  "sweepAll (w # wss) s = Inr s' \<Longrightarrow>
   sweepOne w s = Inr (state_of (sweepOne w s)) \<and> sweepAll wss (state_of (sweepOne w s)) = Inr s'"
  by (cases "sweepOne w s") (auto simp: state_of_simps)

lemma sweepOne_self:
  "isAlive (conns (state_of (sweepOne c s)) c) = False \<or> isl (sweepOne c s)"
  "readyState (conns (state_of (sweepOne c s)) c) =
     (if isAlive (conns s c) \<or> readyState (conns s c) = CLOSED \<or> isl (sweepOne c s)
      then readyState (conns s c) else CLOSING)"
  "pings (conns (state_of (sweepOne c s)) c) =
     (if isAlive (conns s c) then Suc (pings (conns s c)) else pings (conns s c))"
  using sweepOne_cases [of s c]
  by (auto simp: state_of_simps terminate_fields handleDisconnect_fields ping_def upd_conn_def)

text \<open>A connection whose flag is true keeps its \<open>readyState\<close>, however the sweep ends.\<close>

lemma sweepAll_alive_open:
  "distinct wss \<Longrightarrow> isAlive (conns s c) \<Longrightarrow>
   readyState (conns (state_of (sweepAll wss s)) c) = readyState (conns s c)"
proof (induction wss arbitrary: s)
  case Nil
  then show ?case by (simp add: state_of_simps)
next
  case (Cons w wss)
  show ?case
  proof (cases "c = w")
    case True
    with Cons.prems have n: "c \<notin> set wss" by simp
    from True Cons.prems(2) have "sweepOne w s = Inr (ping w (upd_conn w (\<lambda>k. k\<lparr>isAlive := False\<rparr>) s))"
      by (simp add: sweepOne_alive)
    with n True show ?thesis
      by (simp add: sweepAll_notin state_of_simps ping_def upd_conn_def)
  next
    case False
    with Cons.prems have d: "distinct wss"
      and a: "isAlive (conns (state_of (sweepOne w s)) c)"
      by (simp_all add: sweepOne_other)
    from Cons.IH [OF d a] False show ?thesis
      by (simp add: sweepAll_unfold sweepOne_other del: sweepAll.simps(2))
  qed
qed

lemma sweepAll_in:
  assumes "distinct wss" and "c \<in> set wss" and "sweepAll wss s = Inr s'"
  shows "isAlive (conns s' c) = False \<and>
     readyState (conns s' c) =
       (if isAlive (conns s c) \<or> readyState (conns s c) = CLOSED then readyState (conns s c)
        else CLOSING) \<and>
     pings (conns s' c) =
       (if isAlive (conns s c) then Suc (pings (conns s c)) else pings (conns s c))"
  using assms
proof (induction wss arbitrary: s)
  case Nil
  then show ?case by simp
next
  case (Cons w wss)
  from sweepAll_Cons_returns [OF Cons.prems(3)]
  have one: "sweepOne w s = Inr (state_of (sweepOne w s))"
    and rest: "sweepAll wss (state_of (sweepOne w s)) = Inr s'"
    by simp_all
  from rest have s': "s' = state_of (sweepAll wss (state_of (sweepOne w s)))"
    by (simp add: state_of_simps)
  from one have ni: "\<not> isl (sweepOne w s)"
    by (metis sum.disc(2))
  show ?case
  proof (cases "c = w")
    case True
    with Cons.prems have "c \<notin> set wss" by simp
    with True ni sweepOne_self [of c s] show ?thesis
      by (simp add: s' sweepAll_notin)
  next
    case False
    with Cons.prems have "distinct wss" "c \<in> set wss" by simp_all
    from Cons.IH [OF this rest] False show ?thesis
      by (simp add: sweepOne_other)
  qed
qed

section \<open>The sweep is the teardown of the dead and the probe of the living\<close>

lemma same_but_liveness_refl: "same_but_liveness s s"
  by (simp add: same_but_liveness_def)

lemma handleDisconnect_sim:
  assumes "same_but_liveness s t"
  shows "same_but_liveness (state_of (handleDisconnect w s)) (state_of (handleDisconnect w t))"
proof -
  have w: "waitingHosts s = waitingHosts t"
    using assms by (simp add: same_but_liveness_def waitingHosts_def)
  show ?thesis
    using assms w
    by (auto simp: same_but_liveness_def handleDisconnect_def send_fields send_sent
          registry_update_fields state_of_simps Let_def split: option.splits)
qed

lemma terminate_sim:
  "same_but_liveness s t \<Longrightarrow> same_but_liveness (terminate w s) (terminate w t)"
  by (simp add: same_but_liveness_def terminate_def upd_conn_def)

lemma probe_sim:
  "same_but_liveness s t \<Longrightarrow>
   same_but_liveness (ping w (upd_conn w (\<lambda>k. k\<lparr>isAlive := False\<rparr>) s)) t"
  by (simp add: same_but_liveness_def ping_def upd_conn_def)

lemma sweepOne_sim:
  assumes "same_but_liveness s t" and "\<not> toString_throws (sessionCode (conns s w))"
  shows "sweepOne w s = Inr (state_of (sweepOne w s)) \<and>
     same_but_liveness (state_of (sweepOne w s))
       (if isAlive (conns s w) then t else terminate w (state_of (handleDisconnect w t)))"
proof (cases "isAlive (conns s w)")
  case True
  with probe_sim [OF assms(1), of w] show ?thesis
    by (simp add: sweepOne_alive state_of_simps)
next
  case False
  with handleDisconnect_returns [OF assms(2)]
  have "sweepOne w s = Inr (terminate w (state_of (handleDisconnect w s)))"
    by (cases "handleDisconnect w s") (simp_all add: sweepOne_def state_of_simps)
  with False terminate_sim [OF handleDisconnect_sim [OF assms(1)], of w w] show ?thesis
    by (simp add: state_of_simps)
qed

lemma sweepAll_sim:
  assumes "same_but_liveness s t" and "distinct wss"
    and "\<forall>c. \<not> toString_throws (sessionCode (conns s c))"
  shows "sweepAll wss s = Inr (state_of (sweepAll wss s)) \<and>
     same_but_liveness (state_of (sweepAll wss s))
       (fold (\<lambda>c t. terminate c (state_of (handleDisconnect c t)))
             (filter (\<lambda>c. \<not> isAlive (conns s c)) wss) t)"
  using assms
proof (induction wss arbitrary: s t)
  case Nil
  then show ?case by (simp add: state_of_simps)
next
  case (Cons w wss)
  let ?s1 = "state_of (sweepOne w s)"
  let ?t1 = "if isAlive (conns s w) then t else terminate w (state_of (handleDisconnect w t))"
  from Cons.prems(3) have pw: "\<not> toString_throws (sessionCode (conns s w))" by simp
  from sweepOne_sim [OF Cons.prems(1) pw]
  have one: "sweepOne w s = Inr ?s1" and r: "same_but_liveness ?s1 ?t1"
    by simp_all
  have d: "distinct wss" and n: "w \<notin> set wss"
    using Cons.prems(2) by simp_all
  have p: "\<forall>c. \<not> toString_throws (sessionCode (conns ?s1 c))"
    using Cons.prems(3) by (simp add: sweepOne_binding)
  have f: "filter (\<lambda>c. \<not> isAlive (conns ?s1 c)) wss
           = filter (\<lambda>c. \<not> isAlive (conns s c)) wss"
  proof (rule filter_cong [OF refl])
    fix x
    assume "x \<in> set wss"
    with n have "x \<noteq> w" by auto
    then show "(\<not> isAlive (conns ?s1 x)) = (\<not> isAlive (conns s x))"
      by (simp add: sweepOne_other)
  qed
  have u: "sweepAll (w # wss) s = sweepAll wss ?s1"
    by (subst sweepAll.simps(2), subst one) simp
  from Cons.IH [OF r d p] f u show ?case
    by (cases "isAlive (conns s w)") simp_all
qed

section \<open>Runs\<close>

lemma uncaught_fields:
  "conns (uncaught r) = conns (state_of r)"
  "clients (uncaught r) = clients (state_of r)"
  "nextId (uncaught r) = nextId (state_of r)"
  "waitingEntries (uncaught r) = waitingEntries (state_of r)"
  "sessions (uncaught r) = sessions (state_of r)"
  by (cases r; auto simp: state_of_simps)+

lemma on_pong_fields:
  "conns (state_of (on_pong ws s)) = (conns s)(ws := (conns s ws)\<lparr>isAlive := True\<rparr>)"
  "clients (state_of (on_pong ws s)) = clients s"
  "nextId (state_of (on_pong ws s)) = nextId s"
  "waitingEntries (state_of (on_pong ws s)) = waitingEntries s"
  "sessions (state_of (on_pong ws s)) = sessions s"
  by (simp_all add: on_pong_def upd_conn_def state_of_simps Let_def)

lemma on_close_fields:
  "isAlive (conns (state_of (on_close ws s)) c) = isAlive (conns s c)"
  "readyState (conns (state_of (on_close ws s)) c) = readyState (conns s c)"
  "pings (conns (state_of (on_close ws s)) c) = pings (conns s c)"
  "role (conns (state_of (on_close ws s)) c) = role (conns s c)"
  "sessionCode (conns (state_of (on_close ws s)) c) = sessionCode (conns s c)"
  "deviceId (conns (state_of (on_close ws s)) c) = deviceId (conns s c)"
  "deviceName (conns (state_of (on_close ws s)) c) = deviceName (conns s c)"
  "clients (state_of (on_close ws s)) = clients s"
  "nextId (state_of (on_close ws s)) = nextId s"
  by (simp_all add: on_close_def handleDisconnect_fields state_of_simps)

lemma step_isAlive:
  assumes "e \<noteq> Sweep" and "isAlive (conns s c)"
  shows "isAlive (conns (step e s) c)"
proof (cases e)
  case Connection
  with assms show ?thesis by (simp add: step_def deliver_def on_connection_def newConn_def)
next
  case (Message ws p)
  with assms on_message_frame [of ws p s c] show ?thesis by (simp add: step_def deliver_def)
next
  case (Pong ws)
  with assms show ?thesis
    by (simp add: step_def deliver_def uncaught_fields on_pong_fields)
next
  case (Close ws)
  with assms show ?thesis
    by (auto simp: step_def deliver_def uncaught_fields on_close_fields upd_conn_def)
next
  case Sweep
  with assms show ?thesis by simp
qed

lemma run_isAlive:
  "Sweep \<notin> set es \<Longrightarrow> isAlive (conns s c) \<Longrightarrow> isAlive (conns (run es s) c)"
proof (induction es arbitrary: s)
  case Nil
  then show ?case by simp
next
  case (Cons e es)
  then have "e \<noteq> Sweep" and "Sweep \<notin> set es" by auto
  with Cons.prems(2) Cons.IH [of "step e s"] step_isAlive [of e s c]
  show ?case by simp
qed

lemma step_clients:
  assumes "distinct (clients s)" and "\<forall>c\<in>set (clients s). c < nextId s"
  shows "distinct (clients (step e s)) \<and> (\<forall>c\<in>set (clients (step e s)). c < nextId (step e s))"
proof (cases e)
  case Connection
  with assms show ?thesis by (auto simp: step_def deliver_def on_connection_def)
next
  case (Message ws p)
  with assms on_message_frame [of ws p s 0] show ?thesis by (simp add: step_def deliver_def)
next
  case (Pong ws)
  with assms show ?thesis
    by (simp add: step_def deliver_def uncaught_fields on_pong_fields)
next
  case (Close ws)
  with assms show ?thesis
    by (simp add: step_def deliver_def uncaught_fields on_close_fields upd_conn_def
        distinct_removeAll)
next
  case Sweep
  with assms show ?thesis
    by (simp add: step_def deliver_def uncaught_fields pingInterval_def sweepAll_binding)
qed

lemma run_clients:
  "distinct (clients s) \<Longrightarrow> \<forall>c\<in>set (clients s). c < nextId s \<Longrightarrow>
   distinct (clients (run es s)) \<and> (\<forall>c\<in>set (clients (run es s)). c < nextId (run es s))"
proof (induction es arbitrary: s)
  case Nil
  then show ?case by simp
next
  case (Cons e es)
  from step_clients [OF Cons.prems, of e] Cons.IH [of "step e s"] show ?case by simp
qed

text \<open>
  A connection whose flag is true when the tick comes is not closed by it, whether the
  callback returns or throws.
\<close>

lemma tick_keeps_alive_open:
  assumes "distinct (clients s)" and "isAlive (conns s c)"
  shows "readyState (conns (step Sweep s) c) = readyState (conns s c)"
  using sweepAll_alive_open [OF assms, of ]
  by (simp add: step_def deliver_def uncaught_fields pingInterval_def)

section \<open>The codes the server holds\<close>

lemma printable_keys:
  "\<not> template_throws (map fst al) \<longleftrightarrow> (\<forall>k\<in>fst ` set al. \<not> toString_throws k)"
  by (auto simp: template_throws_def)

lemma update_printable:
  "\<not> template_throws (map fst al) \<Longrightarrow> \<not> toString_throws k \<Longrightarrow>
   \<not> template_throws (map fst (AList.update k v al))"
  by (auto simp: template_throws_def update_keys split: if_splits)

lemma delete_printable:
  "\<not> template_throws (map fst al) \<Longrightarrow> \<not> template_throws (map fst (AList.delete k al))"
  by (auto simp: template_throws_def delete_keys)

lemma waiting_code_printable:
  "\<not> template_throws (map fst (waitingEntries s)) \<Longrightarrow> waitingHosts s code = Some h \<Longrightarrow>
   \<not> toString_throws code"
  by (auto simp: template_throws_def waitingHosts_def dest!: map_of_SomeD)

lemma handleDisconnect_printable:
  "printable_codes s \<Longrightarrow> printable_codes (state_of (handleDisconnect ws s))"
  unfolding printable_codes_def
  by (auto simp: handleDisconnect_def Let_def state_of_simps registry_update_fields
        send_fields delete_printable split: option.splits)

lemma registerHost_printable:
  assumes "printable_codes s"
  shows "printable_codes (state_of (registerHost ws message s))"
proof (cases "destructure message")
  case (Inl e)
  with assms show ?thesis by (simp add: registerHost_def state_of_simps)
next
  case (Inr t)
  then obtain code device_id device_name
    where d: "destructure message = Inr (code, device_id, device_name)"
    by (cases t) auto
  show ?thesis
  proof (cases "template_throws [code, device_name, device_id]")
    case True
    with d assms show ?thesis by (simp add: registerHost_def state_of_simps)
  next
    case False
    then have p: "\<not> toString_throws code" by (simp add: template_throws_def)
    with assms have u: "\<not> template_throws (map fst (AList.update code ws (waitingEntries s)))"
      by (simp add: printable_codes_def update_printable)
    with d False p assms show ?thesis
      unfolding printable_codes_def
      by (auto simp: registerHost_def Let_def state_of_simps registry_update_fields
            send_fields upd_conn_def)
  qed
qed

lemma connectToHost_printable:
  assumes "printable_codes s"
  shows "printable_codes (state_of (connectToHost ws message s))"
proof (cases "destructure message")
  case (Inl e)
  with assms show ?thesis by (simp add: connectToHost_def state_of_simps)
next
  case (Inr t)
  then obtain code device_id device_name
    where d: "destructure message = Inr (code, device_id, device_name)"
    by (cases t) auto
  show ?thesis
  proof (cases "waitingHosts s code")
    case None
    with d assms show ?thesis
      by (simp add: connectToHost_def hostNotFound_def state_of_simps printable_codes_def
          send_fields)
  next
    case (Some h)
    with assms waiting_code_printable [of s code h] have p: "\<not> toString_throws code"
      by (simp add: printable_codes_def)
    from assms have u: "\<not> template_throws (map fst (AList.delete code (waitingEntries s)))"
      by (simp add: printable_codes_def delete_printable)
    with d Some p assms show ?thesis
      unfolding printable_codes_def
      by (auto simp: connectToHost_def hostNotFound_def Let_def state_of_simps
            registry_update_fields send_fields upd_conn_def)
  qed
qed

lemma on_message_printable:
  assumes "printable_codes s"
  shows "printable_codes (on_message ws p s)"
  using on_message_cases [of p ws s]
proof (elim disjE exE conjE)
  fix m
  assume "on_message ws p s = state_of (registerHost ws m s)"
  with registerHost_printable [OF assms] show ?thesis by simp
next
  fix m
  assume "on_message ws p s = state_of (connectToHost ws m s)"
  with connectToHost_printable [OF assms] show ?thesis by simp
next
  fix m
  assume "on_message ws p s = state_of (relayData ws m s)"
  with assms show ?thesis by (simp add: printable_codes_def relayData_fields)
next
  assume "on_message ws p s = send ws Pong_frame s"
  with assms show ?thesis by (simp add: printable_codes_def send_fields)
next
  assume "on_message ws p s = s"
  with assms show ?thesis by simp
qed

lemma sweepOne_printable:
  assumes "printable_codes s"
  shows "printable_codes (state_of (sweepOne w s))"
  using sweepOne_cases [of s w] handleDisconnect_printable [OF assms, of w] assms
  by (auto simp: state_of_simps printable_codes_def terminate_fields ping_def upd_conn_def
        split: if_splits)

lemma sweepAll_printable:
  "printable_codes s \<Longrightarrow> printable_codes (state_of (sweepAll wss s))"
  by (induction wss arbitrary: s)
     (simp_all add: state_of_simps sweepAll_unfold sweepOne_printable del: sweepAll.simps(2))

lemma uncaught_printable:
  "printable_codes (uncaught r) = printable_codes (state_of r)"
  by (simp add: printable_codes_def uncaught_fields)

lemma step_printable:
  assumes "printable_codes s"
  shows "printable_codes (step e s)"
proof (cases e)
  case Connection
  with assms show ?thesis
    by (simp add: step_def deliver_def on_connection_def newConn_def printable_codes_def)
next
  case (Message ws p)
  with assms on_message_printable [OF assms, of ws p] show ?thesis
    by (simp add: step_def deliver_def)
next
  case (Pong ws)
  with assms show ?thesis
    by (simp add: step_def deliver_def uncaught_printable)
       (simp add: printable_codes_def on_pong_fields)
next
  case (Close ws)
  let ?s0 = "(upd_conn ws (\<lambda>k. k\<lparr>readyState := CLOSED\<rparr>) s)\<lparr>clients := removeAll ws (clients s)\<rparr>"
  from assms have p0: "printable_codes ?s0"
    by (simp add: printable_codes_def upd_conn_def)
  have "printable_codes (state_of (on_close ws ?s0))"
    using handleDisconnect_printable [OF p0, of ws] p0
    by (simp add: on_close_def state_of_simps)
  with Close assms show ?thesis
    by (simp add: step_def deliver_def uncaught_printable)
next
  case Sweep
  with assms sweepAll_printable [OF assms, of "clients s"] show ?thesis
    by (simp add: step_def deliver_def uncaught_printable pingInterval_def)
qed

lemma run_printable:
  "printable_codes s \<Longrightarrow> printable_codes (run es s)"
  by (induction es arbitrary: s) (simp_all add: step_printable)

text \<open>
  Every state the server reaches has each connection once in \<open>clients\<close>, and holds only
  codes that can be converted to strings.
\<close>

lemma reachable_clients:
  "distinct (clients (run es init_state)) \<and>
   (\<forall>c\<in>set (clients (run es init_state)). c < nextId (run es init_state))"
  by (rule run_clients) (simp_all add: init_state_def)

lemma reachable_printable: "printable_codes (run es init_state)"
  by (rule run_printable)
     (simp add: printable_codes_def init_state_def newConn_def template_throws_def)

section \<open>The inline variant: frames, sweep and runs\<close>

lemma inline_try_fields:
  "isAlive (conns (state_of (inline_try ws msg s)) c) = isAlive (conns s c)"
  "readyState (conns (state_of (inline_try ws msg s)) c) = readyState (conns s c)"
  "pings (conns (state_of (inline_try ws msg s)) c) = pings (conns s c)"
  "clients (state_of (inline_try ws msg s)) = clients s"
  "nextId (state_of (inline_try ws msg s)) = nextId s"
  by (auto simp: inline_try_def registry_update_fields state_of_simps
        upd_conn_def send_def Let_def split: sum.splits prod.splits option.splits)

lemma inline_on_message_fields:
  "isAlive (conns (inline_on_message ws p s) c) = isAlive (conns s c)"
  "readyState (conns (inline_on_message ws p s) c) = readyState (conns s c)"
  "pings (conns (inline_on_message ws p s) c) = pings (conns s c)"
  "clients (inline_on_message ws p s) = clients s"
  "nextId (inline_on_message ws p s) = nextId s"
  by (cases p; simp add: inline_on_message_def inline_try_fields)+

lemma inline_on_close_fields:
  "isAlive (conns (inline_on_close ws s) c) = isAlive (conns s c)"
  "readyState (conns (inline_on_close ws s) c) = readyState (conns s c)"
  "pings (conns (inline_on_close ws s) c) = pings (conns s c)"
  "sessionCode (conns (inline_on_close ws s) c) = sessionCode (conns s c)"
  "clients (inline_on_close ws s) = clients s"
  "nextId (inline_on_close ws s) = nextId s"
  by (simp_all add: inline_on_close_def send_fields registry_update_fields Let_def
      split: option.splits)

text \<open>
  The teardown of the \<^verbatim>\<open>close\<close> handler: afterwards the connection no longer waits
  under its code and no session is left under it.
\<close>

lemma inline_on_close_registry:
  assumes "truthy (sessionCode (conns s ws))"
  shows "waitingHosts (inline_on_close ws s) (sessionCode (conns s ws)) \<noteq> Some ws"
    and "sessions (inline_on_close ws s) (sessionCode (conns s ws)) = None"
  using assms
  by (auto simp: inline_on_close_def waitingHosts_simps registry_update_fields send_fields
        Let_def split: option.splits)

lemma inline_on_close_notifies:
  assumes "truthy (sessionCode (conns s ws))"
    and "waitingHosts s (sessionCode (conns s ws)) \<noteq> Some ws"
    and "sessions s (sessionCode (conns s ws)) = Some (host, client)"
    and "other = (if role (conns s ws) = Some Host then client else host)"
    and "readyState (conns s other) = OPEN"
  shows "sent (conns (inline_on_close ws s) other) = sent (conns s other) @ [Peer_disconnected]"
  using assms
  by (simp add: inline_on_close_def send_sent Let_def)

lemma inline_sweepOne_fields:
  "role (conns (inline_sweepOne w s) c) = role (conns s c)"
  "sessionCode (conns (inline_sweepOne w s) c) = sessionCode (conns s c)"
  "deviceId (conns (inline_sweepOne w s) c) = deviceId (conns s c)"
  "deviceName (conns (inline_sweepOne w s) c) = deviceName (conns s c)"
  "sent (conns (inline_sweepOne w s) c) = sent (conns s c)"
  "clients (inline_sweepOne w s) = clients s" "nextId (inline_sweepOne w s) = nextId s"
  "waitingEntries (inline_sweepOne w s) = waitingEntries s"
  "sessions (inline_sweepOne w s) = sessions s"
  "exited (inline_sweepOne w s) = exited s"
  by (simp_all add: inline_sweepOne_def terminate_fields ping_def upd_conn_def)

lemma inline_sweepOne_other:
  "c \<noteq> w \<Longrightarrow> isAlive (conns (inline_sweepOne w s) c) = isAlive (conns s c)"
  "c \<noteq> w \<Longrightarrow> readyState (conns (inline_sweepOne w s) c) = readyState (conns s c)"
  "c \<noteq> w \<Longrightarrow> pings (conns (inline_sweepOne w s) c) = pings (conns s c)"
  by (simp_all add: inline_sweepOne_def terminate_fields ping_def upd_conn_def)

lemma inline_sweepOne_self:
  "isAlive (conns (inline_sweepOne c s) c) = False"
  "readyState (conns (inline_sweepOne c s) c) =
     (if isAlive (conns s c) \<or> readyState (conns s c) = CLOSED then readyState (conns s c)
      else CLOSING)"
  "pings (conns (inline_sweepOne c s) c) =
     (if isAlive (conns s c) then Suc (pings (conns s c)) else pings (conns s c))"
  by (simp_all add: inline_sweepOne_def terminate_fields ping_def upd_conn_def)

lemma inline_sweepAll_fields:
  "role (conns (inline_sweepAll wss s) c) = role (conns s c)"
  "sessionCode (conns (inline_sweepAll wss s) c) = sessionCode (conns s c)"
  "deviceId (conns (inline_sweepAll wss s) c) = deviceId (conns s c)"
  "deviceName (conns (inline_sweepAll wss s) c) = deviceName (conns s c)"
  "sent (conns (inline_sweepAll wss s) c) = sent (conns s c)"
  "clients (inline_sweepAll wss s) = clients s" "nextId (inline_sweepAll wss s) = nextId s"
  "waitingEntries (inline_sweepAll wss s) = waitingEntries s"
  "sessions (inline_sweepAll wss s) = sessions s"
  "exited (inline_sweepAll wss s) = exited s"
  by (induction wss arbitrary: s) (simp_all add: inline_sweepOne_fields)

lemma inline_sweepAll_notin:
  "c \<notin> set wss \<Longrightarrow> isAlive (conns (inline_sweepAll wss s) c) = isAlive (conns s c)"
  "c \<notin> set wss \<Longrightarrow> readyState (conns (inline_sweepAll wss s) c) = readyState (conns s c)"
  "c \<notin> set wss \<Longrightarrow> pings (conns (inline_sweepAll wss s) c) = pings (conns s c)"
  by (induction wss arbitrary: s) (simp_all add: inline_sweepOne_other)

lemma inline_sweepAll_in:
  assumes "distinct wss" and "c \<in> set wss"
  shows "isAlive (conns (inline_sweepAll wss s) c) = False \<and>
     readyState (conns (inline_sweepAll wss s) c) =
       (if isAlive (conns s c) \<or> readyState (conns s c) = CLOSED then readyState (conns s c)
        else CLOSING) \<and>
     pings (conns (inline_sweepAll wss s) c) =
       (if isAlive (conns s c) then Suc (pings (conns s c)) else pings (conns s c))"
  using assms
proof (induction wss arbitrary: s)
  case Nil
  then show ?case by simp
next
  case (Cons w wss)
  show ?case
  proof (cases "c = w")
    case True
    with Cons.prems have "c \<notin> set wss" by simp
    with True show ?thesis
      by (simp add: inline_sweepAll_notin inline_sweepOne_self)
  next
    case False
    with Cons.prems have "distinct wss" "c \<in> set wss" by simp_all
    from Cons.IH [OF this, of "inline_sweepOne w s"] False show ?thesis
      by (simp add: inline_sweepOne_other)
  qed
qed

lemma inline_step_isAlive:
  assumes "e \<noteq> Sweep" and "isAlive (conns s c)"
  shows "isAlive (conns (inline_step e s) c)"
  using assms
  by (cases e)
     (auto simp: inline_step_def on_connection_def newConn_def inline_on_message_fields
        inline_on_pong_def inline_on_close_fields upd_conn_def)

lemma inline_run_isAlive:
  "Sweep \<notin> set es \<Longrightarrow> isAlive (conns s c) \<Longrightarrow> isAlive (conns (inline_run es s) c)"
proof (induction es arbitrary: s)
  case Nil
  then show ?case by simp
next
  case (Cons e es)
  then have "e \<noteq> Sweep" and "Sweep \<notin> set es" by auto
  with Cons.prems(2) Cons.IH [of "inline_step e s"] inline_step_isAlive [of e s c]
  show ?case by simp
qed

lemma inline_step_clients:
  assumes "distinct (clients s)" and "\<forall>c\<in>set (clients s). c < nextId s"
  shows "distinct (clients (inline_step e s)) \<and>
         (\<forall>c\<in>set (clients (inline_step e s)). c < nextId (inline_step e s))"
  using assms
  by (cases e)
     (auto simp: inline_step_def on_connection_def inline_on_message_fields
        inline_on_pong_def inline_on_close_fields upd_conn_def inline_sweep_def
        inline_sweepAll_fields distinct_removeAll)

lemma inline_run_clients:
  "distinct (clients s) \<Longrightarrow> \<forall>c\<in>set (clients s). c < nextId s \<Longrightarrow>
   distinct (clients (inline_run es s)) \<and>
   (\<forall>c\<in>set (clients (inline_run es s)). c < nextId (inline_run es s))"
proof (induction es arbitrary: s)
  case Nil
  then show ?case by simp
next
  case (Cons e es)
  from inline_step_clients [OF Cons.prems, of e] Cons.IH [of "inline_step e s"]
  show ?case by simp
qed

lemma inline_reachable_clients:
  "distinct (clients (inline_run es init_state)) \<and>
   (\<forall>c\<in>set (clients (inline_run es init_state)). c < nextId (inline_run es init_state))"
  by (rule inline_run_clients) (simp_all add: init_state_def)

lemma inline_tick_keeps_alive_open:
  assumes "distinct (clients s)" and "isAlive (conns s c)"
  shows "readyState (conns (inline_step Sweep s) c) = readyState (conns s c)"
proof (cases "c \<in> set (clients s)")
  case True
  from inline_sweepAll_in [OF assms(1) True, of s] assms(2) show ?thesis
    by (simp add: inline_step_def inline_sweep_def)
next
  case False
  then show ?thesis by (simp add: inline_step_def inline_sweep_def inline_sweepAll_notin)
qed

section \<open>Frames of the protocol\<close>

lemma invalidCode_JStr: "invalidCode (JStr x) \<longleftrightarrow> length x \<noteq> 9"
  by (auto simp: invalidCode_def)

lemma getProp_total:
  "getProp message k = Inr v \<Longrightarrow> \<exists>w. getProp message k' = Inr w"
  by (cases message) simp_all

lemma destructure_msg:
  "destructure (register_host_msg r code device_id device_name)
     = Inr (code, device_id, device_name)"
  "destructure (connect_to_host_msg r code device_id device_name)
     = Inr (code, device_id, device_name)"
  by (simp_all add: destructure_def register_host_msg_def connect_to_host_msg_def)

lemma getProp_msg:
  "getProp (register_host_msg r code device_id device_name) ''type''
     = Inr (JStr ''register_host'')"
  "getProp (register_host_msg r code device_id device_name) ''code'' = Inr code"
  "getProp (connect_to_host_msg r code device_id device_name) ''type''
     = Inr (JStr ''connect_to_host'')"
  "getProp (connect_to_host_msg r code device_id device_name) ''code'' = Inr code"
  "getProp (relay_msg r d) ''type'' = Inr (JStr ''relay'')"
  "getProp (relay_msg r d) ''data'' = Inr d"
  by (simp_all add: register_host_msg_def connect_to_host_msg_def relay_msg_def)

lemma valid_codes: "\<not> invalidCode code_ABC" "\<not> invalidCode code_QRS"
  by (simp_all add: invalidCode_def code_ABC_def code_QRS_def)

lemma printable_strings:
  "\<not> toString_throws code_ABC" "\<not> toString_throws code_QRS"
  "\<not> template_throws [JStr x, JStr y, JStr z]" "\<not> template_throws [JStr x, JStr y]"
  "toString_throws unprintable"
  by (simp_all add: template_throws_def code_ABC_def code_QRS_def unprintable_def)

lemma inline_close_after_sweep:
  assumes "distinct (clients s)" and "c \<in> set (clients s)" and "c < nextId s"
    and "\<not> isAlive (conns s c)" and "readyState (conns s c) = OPEN"
  shows "readyState (conns (inline_sweep s) c) = CLOSING"
    and "inline_step (Close c) (inline_sweep s) =
       inline_on_close c ((upd_conn c (\<lambda>k. k\<lparr>readyState := CLOSED\<rparr>) (inline_sweep s))
                            \<lparr>clients := removeAll c (clients s)\<rparr>)"
    and "readyState (conns (inline_step (Close c) (inline_sweep s)) c) = CLOSED"
    and "c \<notin> set (clients (inline_step (Close c) (inline_sweep s)))"
    and "truthy (sessionCode (conns s c)) \<Longrightarrow>
       waitingHosts (inline_step (Close c) (inline_sweep s)) (sessionCode (conns s c)) \<noteq> Some c"
    and "truthy (sessionCode (conns s c)) \<Longrightarrow>
       sessions (inline_step (Close c) (inline_sweep s)) (sessionCode (conns s c)) = None"
proof -
  let ?s0 = "(upd_conn c (\<lambda>k. k\<lparr>readyState := CLOSED\<rparr>) (inline_sweep s))
               \<lparr>clients := removeAll c (clients s)\<rparr>"
  from inline_sweepAll_in [OF assms(1,2), of s] assms(4,5)
  show r: "readyState (conns (inline_sweep s) c) = CLOSING"
    by (simp add: inline_sweep_def)
  with assms(3)
  show e: "inline_step (Close c) (inline_sweep s) = inline_on_close c ?s0"
    by (simp add: inline_step_def inline_sweep_def inline_sweepAll_fields)
  show "readyState (conns (inline_step (Close c) (inline_sweep s)) c) = CLOSED"
    by (simp add: e inline_on_close_fields upd_conn_def)
  show "c \<notin> set (clients (inline_step (Close c) (inline_sweep s)))"
    by (simp add: e inline_on_close_fields)
  have k: "sessionCode (conns ?s0 c) = sessionCode (conns s c)"
    by (simp add: upd_conn_def inline_sweep_def inline_sweepAll_fields)
  assume t: "truthy (sessionCode (conns s c))"
  with k have "truthy (sessionCode (conns ?s0 c))" by simp
  from inline_on_close_registry [OF this]
  show "waitingHosts (inline_step (Close c) (inline_sweep s)) (sessionCode (conns s c)) \<noteq> Some c"
    and "sessions (inline_step (Close c) (inline_sweep s)) (sessionCode (conns s c)) = None"
    by (simp_all only: e k not_False_eq_True)
qed

section \<open>The claims\<close>

subsection \<open>The registries\<close>

text \<open>
  C1. The claim is that no sequence of operations leaves a code in the waiting-hosts map
  and in the sessions map at once. \<open>registerHost\<close> looks for the code in the waiting-hosts
  map only: while \<open>A\<close> and \<open>B\<close> are paired under the code, the registration of the same
  code by \<open>C\<close> is accepted, and the code is then a key of both maps.
\<close>

theorem C1_code_in_both_registries:
  "sessions paired code_ABC = Some (0, 1) \<and> waitingHosts paired code_ABC = None \<and>
   waitingHosts (run [Connection, C_registers] paired) code_ABC = Some 2 \<and>
   sessions (run [Connection, C_registers] paired) code_ABC = Some (0, 1) \<and>
   sent (conns (run [Connection, C_registers] paired) 2) = [Registered code_ABC]"
  by (simp add: paired_registry paired_conns scenario_defs handler_defs)

subsection \<open>Relay\<close>

text \<open>
  C2. The claim is that, after a pairing under a code, a relay frame of the host is
  handed to the client of that session and to no third connection. After \<open>A\<close> and \<open>B\<close>
  are paired, \<open>C\<close> registers the same code and \<open>D\<close> is paired with \<open>C\<close>: the session of
  the code is now that of \<open>C\<close> and \<open>D\<close>. The relay frame of the host \<open>A\<close> then goes to
  \<open>D\<close>, and \<open>B\<close> gets nothing.
\<close>

theorem C2_relay_reaches_third_connection:
  "sessions paired code_ABC = Some (0, 1) \<and>
   sessions (run [Connection, Connection, C_registers, D_connects] paired) code_ABC
     = Some (2, 3) \<and>
   sent (conns (run [Connection, Connection, C_registers, D_connects, A_relays] paired) 1)
     = sent (conns paired 1) \<and>
   sent (conns (run [Connection, Connection, C_registers, D_connects, A_relays] paired) 3)
     = [Connected_to_host (JStr ''idC'') (JStr ''C''), Relayed (Some Host) (JStr ''P'')]"
  by (simp add: paired_registry paired_conns scenario_defs handler_defs)

text \<open>
  What does hold: when the session under the sender's code is the sender's own, with the
  sender as its host, and the client is open, the frame goes to that client and nothing
  else changes.
\<close>

lemma relay_within_own_session:
  assumes "sessions s (sessionCode (conns s h)) = Some (h, cl)"
    and "role (conns s h) = Some Host"
    and "readyState (conns s cl) = OPEN"
    and "getProp message ''data'' = Inr d"
  shows "relayData h message s = Inr (send cl (Relayed (Some Host) d) s)"
  using assms by (simp add: relayData_def)

text \<open>
  C7. The claim is that a relay frame changes no registry and no field of a connection,
  that it is a no-op when the sender has no active session, and that it is dropped when
  the peer is not open. \<open>relayData\<close> takes any session under the sender's code for the
  sender's own, as \<open>handleDisconnect\<close> does. First case: \<open>B\<close> has left, so the session of
  \<open>A\<close> is torn down, and the code has since been registered by \<open>C\<close> and joined by \<open>D\<close>;
  a relay frame of \<open>A\<close> is handed to \<open>D\<close>. Second case: \<open>C\<close> still waits, under the
  code of the session of \<open>A\<close> and \<open>B\<close>; a relay frame of \<open>C\<close> is handed to \<open>B\<close>.
\<close>

theorem C7_relay_without_session_is_forwarded:
  "sessions reused_after_leave code_ABC = Some (2, 3) \<and>
   sessionCode (conns reused_after_leave 0) = code_ABC \<and>
   role (conns reused_after_leave 0) = Some Host \<and>
   sent (conns (run [A_relays] reused_after_leave) 3)
     = sent (conns reused_after_leave 3) @ [Relayed (Some Host) (JStr ''P'')] \<and>
   waitingHosts reused_while_paired code_ABC = Some 2 \<and>
   sessions reused_while_paired code_ABC = Some (0, 1) \<and>
   sent (conns (run [C_relays] reused_while_paired) 1)
     = sent (conns reused_while_paired 1) @ [Relayed (Some Host) (JStr ''P'')]"
  by (simp add: reused_after_leave_state reused_while_paired_state paired_conns
      scenario_defs handler_defs)

text \<open>
  What does hold of every frame with the type \<open>relay\<close>: it changes neither registry, nor
  the set of connections, nor any field of a connection but \<open>sent\<close>; all it can do is
  hand one \<open>relayed\<close> frame with the payload to one connection's transport. When no
  session exists under the sender's code, and when the connection it picks is not open,
  nothing happens: in particular nothing is sent to the sender.
\<close>

lemma relay_is_a_pure_forward:
  assumes "getProp message ''type'' = Inr (JStr ''relay'')"
    and "s' = on_message ws (Some message) s"
  shows "waitingEntries s' = waitingEntries s \<and> sessions s' = sessions s \<and>
     clients s' = clients s \<and> nextId s' = nextId s \<and> exited s' = exited s \<and>
     (\<forall>c. conns s' c = (conns s c)\<lparr>sent := sent (conns s' c)\<rparr>) \<and>
     (\<forall>c. sent (conns s' c) \<noteq> sent (conns s c) \<longrightarrow>
          (\<exists>d. getProp message ''data'' = Inr d \<and>
               sent (conns s' c) = sent (conns s c) @ [Relayed (role (conns s ws)) d])) \<and>
     (sessions s (sessionCode (conns s ws)) = None \<longrightarrow> s' = s) \<and>
     (\<forall>h cl. sessions s (sessionCode (conns s ws)) = Some (h, cl) \<and>
        readyState (conns s (if role (conns s ws) = Some Host then cl else h)) \<noteq> OPEN
        \<longrightarrow> s' = s)"
proof -
  obtain d where d: "getProp message ''data'' = Inr d"
    using getProp_total [OF assms(1)] by blast
  have "s' = state_of (relayData ws message s)"
    using assms by (simp add: on_message_def handleMessage_def)
  then show ?thesis
    using d
    by (auto simp: relayData_def send_def upd_conn_def Let_def state_of_simps
             split: option.splits)
qed

subsection \<open>Teardown\<close>

text \<open>
  C6. The claim is that a teardown is a no-op when neither registry holds the
  connection's code for this connection, and that a second teardown in succession changes
  nothing. \<open>handleDisconnect\<close> compares the waiting host under the code with the
  connection, but takes any session under the code for the connection's own. First case:
  \<open>B\<close> has left, and the code of \<open>A\<close> is now the code of the session of \<open>C\<close> and \<open>D\<close>;
  the teardown of \<open>A\<close> removes that session and hands \<open>peer_disconnected\<close> to \<open>D\<close>.
  Second case: \<open>C\<close> waits under the code of the session of \<open>A\<close> and \<open>B\<close>; the first
  teardown of \<open>C\<close> removes its waiting entry and leaves the session, the second removes
  the session and hands \<open>peer_disconnected\<close> to \<open>B\<close>. Every one of these calls returns.
\<close>

theorem C6_teardown_hits_foreign_session:
  "sessions reused_after_leave code_ABC = Some (2, 3) \<and>
   waitingHosts reused_after_leave code_ABC = None \<and>
   sessionCode (conns reused_after_leave 0) = code_ABC \<and>
   handleDisconnect 0 reused_after_leave
     = Inr (state_of (handleDisconnect 0 reused_after_leave)) \<and>
   sessions (state_of (handleDisconnect 0 reused_after_leave)) code_ABC = None \<and>
   sent (conns (state_of (handleDisconnect 0 reused_after_leave)) 3)
     = sent (conns reused_after_leave 3) @ [Peer_disconnected] \<and>
   waitingHosts reused_while_paired code_ABC = Some 2 \<and>
   handleDisconnect 2 reused_while_paired
     = Inr (state_of (handleDisconnect 2 reused_while_paired)) \<and>
   waitingHosts (state_of (handleDisconnect 2 reused_while_paired)) code_ABC = None \<and>
   sessions (state_of (handleDisconnect 2 reused_while_paired)) code_ABC = Some (0, 1) \<and>
   handleDisconnect 2 (state_of (handleDisconnect 2 reused_while_paired))
     = Inr (state_of (handleDisconnect 2 (state_of (handleDisconnect 2 reused_while_paired)))) \<and>
   sessions (state_of (handleDisconnect 2 (state_of (handleDisconnect 2 reused_while_paired))))
      code_ABC = None \<and>
   sent (conns (state_of (handleDisconnect 2 (state_of (handleDisconnect 2 reused_while_paired))))
      1)
     = sent (conns (state_of (handleDisconnect 2 reused_while_paired)) 1) @ [Peer_disconnected]"
  by (simp add: reused_after_leave_state reused_while_paired_state paired_conns
      handler_defs code_ABC_def)

subsection \<open>Pairing\<close>

text \<open>
  C4. The claim is that \<open>connectToHost\<close> either fails with the host-not-found reply and
  changes no registry, or binds the caller as client, moves the code from the
  waiting-hosts map to the sessions map and sends both notifications. The function writes
  a log line between the update of the registries and the two notifications (under them
  the comment says that both are notified), and the log converts the device name of the
  frame to a string. \<open>A\<close> waits under the code and \<open>B\<close> asks for it with the device name
  \<^verbatim>\<open>{"toString":1}\<close>: the conversion throws, the message handler catches the exception,
  and \<open>B\<close> is left as the client of a session with \<open>A\<close> of which neither has been
  notified. The failure path logs the code before it replies: when \<open>B\<close> asks for the code
  \<^verbatim>\<open>{"toString":1}\<close>, which nobody waits under, it gets no reply at all.
\<close>

theorem C4_paired_without_notification:
  "waitingHosts A_waiting code_ABC = Some 0 \<and> readyState (conns A_waiting 0) = OPEN \<and>
   connectToHost 1 (connect_to_host_msg 2 code_ABC (JStr ''idB'') unprintable) A_waiting
     = Inl (TypeError, run [B_connects_unprintable] A_waiting) \<and>
   role (conns (run [B_connects_unprintable] A_waiting) 1) = Some Client \<and>
   waitingHosts (run [B_connects_unprintable] A_waiting) code_ABC = None \<and>
   sessions (run [B_connects_unprintable] A_waiting) code_ABC = Some (0, 1) \<and>
   sent (conns (run [B_connects_unprintable] A_waiting) 0) = sent (conns A_waiting 0) \<and>
   sent (conns (run [B_connects_unprintable] A_waiting) 1) = [] \<and>
   waitingHosts A_waiting unprintable = None \<and>
   connectToHost 1 (connect_to_host_msg 2 unprintable (JStr ''idB'') (JStr ''B'')) A_waiting
     = Inl (TypeError, A_waiting) \<and>
   run [B_asks_unprintable] A_waiting = A_waiting"
  by (simp add: A_waiting_registry A_waiting_conns scenario_defs handler_defs)

text \<open>
  What does hold, with the fields \<open>code\<close>, \<open>device_id\<close> and \<open>device_name\<close> of the
  message, when the values the logs print can be converted to strings: \<open>connectToHost\<close>
  replies \<open>connection_failed\<close> exactly when the waiting-hosts map has no connection under
  the code or the connection it has is not open, and the reply is then the only change.
  Otherwise, with the host \<open>h\<close> found under the code, the caller becomes a client, the
  code leaves the waiting-hosts map, the sessions map gets the pair of \<open>h\<close> and the
  caller under the code, \<open>peer_connected\<close> with the caller's device id and name is handed
  to \<open>h\<close> and \<open>connected_to_host\<close> with the host's device id and name is handed to the
  caller.
\<close>

lemma connectToHost_when_logs_print:
  assumes "destructure message = Inr (code, device_id, device_name)"
    and "\<not> toString_throws code" and "\<not> toString_throws device_name"
    and "\<forall>h. waitingHosts s code = Some h \<longrightarrow> \<not> toString_throws (deviceName (conns s h))"
  shows "\<exists>s'. connectToHost ws message s = Inr s' \<and>
     (sent (conns s' ws) = sent (conns s ws) @ [Connection_failed No_se_encontro_ningun_PC]
        \<longleftrightarrow> (waitingHosts s code = None \<or>
             (\<exists>h. waitingHosts s code = Some h \<and> readyState (conns s h) \<noteq> OPEN))) \<and>
     (waitingHosts s code = None \<or>
        (\<exists>h. waitingHosts s code = Some h \<and> readyState (conns s h) \<noteq> OPEN) \<longrightarrow>
        s' = send ws (Connection_failed No_se_encontro_ningun_PC) s) \<and>
     (\<forall>h. waitingHosts s code = Some h \<and> readyState (conns s h) = OPEN \<longrightarrow>
        role (conns s' ws) = Some Client \<and>
        waitingHosts s' = (waitingHosts s)(code := None) \<and>
        sessions s' = (sessions s)(code \<mapsto> (h, ws)) \<and>
        sent (conns s' h) =
          sent (conns s h) @ Peer_connected device_id device_name #
            (if h = ws then [Connected_to_host device_id device_name] else []) \<and>
        sent (conns s' ws) =
          sent (conns s ws) @ (if h = ws then [Peer_connected device_id device_name] else []) @
            [Connected_to_host (if h = ws then device_id else deviceId (conns s h))
                               (if h = ws then device_name else deviceName (conns s h))])"
  using assms
  by (cases "waitingHosts s code")
     (auto simp: connectToHost_def hostNotFound_def template_throws_def send_def upd_conn_def
        Let_def waitingHosts_simps registry_update_fields)

subsection \<open>Self-pairing\<close>

text \<open>
  C10. The claim is that, when the connection that waits under a code sends
  \<open>connect_to_host\<close> with that code, the call succeeds and the connection is handed
  \<open>peer_connected\<close> and then \<open>connected_to_host\<close>. \<open>A\<close> waits under the code and asks
  for it with the device name \<^verbatim>\<open>{"toString":1}\<close>. The role of \<open>A\<close> becomes client, the
  code leaves the waiting-hosts map and the session under it has \<open>A\<close> as host and as
  client; then the log line that stands before the two notifications throws, and \<open>A\<close>
  gets neither. The inline variant has the same log line at the same place.
\<close>

theorem C10_self_paired_without_notification:
  "waitingHosts A_waiting code_ABC = Some 0 \<and> readyState (conns A_waiting 0) = OPEN \<and>
   role (conns (run [A_connects_own_unprintable] A_waiting) 0) = Some Client \<and>
   waitingHosts (run [A_connects_own_unprintable] A_waiting) code_ABC = None \<and>
   sessions (run [A_connects_own_unprintable] A_waiting) code_ABC = Some (0, 0) \<and>
   sent (conns (run [A_connects_own_unprintable] A_waiting) 0) = sent (conns A_waiting 0) \<and>
   waitingHosts inline_A_waiting code_ABC = Some 0 \<and>
   readyState (conns inline_A_waiting 0) = OPEN \<and>
   role (conns (inline_run [A_connects_own_unprintable] inline_A_waiting) 0) = Some Client \<and>
   waitingHosts (inline_run [A_connects_own_unprintable] inline_A_waiting) code_ABC = None \<and>
   sessions (inline_run [A_connects_own_unprintable] inline_A_waiting) code_ABC = Some (0, 0) \<and>
   sent (conns (inline_run [A_connects_own_unprintable] inline_A_waiting) 0)
     = sent (conns inline_A_waiting 0)"
  by (simp add: A_waiting_registry A_waiting_conns inline_A_waiting_state scenario_defs
      handler_defs inline_defs)

text \<open>
  What does hold, when the device name of the frame can be converted to a string: the
  call succeeds, the role becomes client, the code moves to the sessions map as the pair
  of the caller with itself, and the caller is handed \<open>peer_connected\<close> and then
  \<open>connected_to_host\<close>, both with the device id and name of the frame.
\<close>

lemma self_pairing_when_logs_print:
  assumes "destructure message = Inr (code, device_id, device_name)"
    and "waitingHosts s code = Some ws" and "readyState (conns s ws) = OPEN"
    and "\<not> toString_throws device_name"
  shows "\<exists>s'. connectToHost ws message s = Inr s' \<and>
     role (conns s' ws) = Some Client \<and> sessionCode (conns s' ws) = code \<and>
     waitingHosts s' code = None \<and> sessions s' code = Some (ws, ws) \<and>
     sent (conns s' ws) =
       sent (conns s ws) @ [Peer_connected device_id device_name,
                            Connected_to_host device_id device_name]"
  using assms
  by (simp add: connectToHost_def template_throws_def send_def upd_conn_def Let_def
      waitingHosts_simps registry_update_fields)

subsection \<open>Bad input\<close>

text \<open>
  C8. A frame that \<open>JSON.parse\<close> rejects, and a decoded message whose \<open>type\<close> is none of
  \<open>register_host\<close>, \<open>connect_to_host\<close>, \<open>relay\<close> and \<open>ping\<close> (also when reading the type
  throws, on \<open>null\<close>), leaves the whole state as it is: no registry and no connection
  changes and nothing is sent. No frame at all changes the \<open>readyState\<close> of a connection:
  the message handler never closes a transport.
\<close>

theorem C8_bad_input_is_discarded:
  "on_message ws None s = s \<and>
   (getProp message ''type'' \<notin>
      {Inr (JStr ''register_host''), Inr (JStr ''connect_to_host''),
       Inr (JStr ''relay''), Inr (JStr ''ping'')}
    \<longrightarrow> on_message ws (Some message) s = s) \<and>
   (\<forall>parsed c. readyState (conns (on_message ws parsed s) c) = readyState (conns s c))"
proof (intro conjI allI impI)
  show "on_message ws None s = s"
    by (simp add: on_message_def)
next
  assume "getProp message ''type'' \<notin>
      {Inr (JStr ''register_host''), Inr (JStr ''connect_to_host''),
       Inr (JStr ''relay''), Inr (JStr ''ping'')}"
  then show "on_message ws (Some message) s = s"
    by (auto simp: on_message_def handleMessage_def state_of_simps split: sum.splits)
next
  fix parsed c
  from on_message_frame [of ws parsed s c]
  show "readyState (conns (on_message ws parsed s) c) = readyState (conns s c)"
    by simp
qed

theorem C8_bad_input_is_discarded_witness:
  "getProp (JObj 1 [(''type'', JStr ''hello'')]) ''type'' = Inr (JStr ''hello'') \<and>
   on_message 0 (Some (JObj 1 [(''type'', JStr ''hello'')])) paired = paired \<and>
   getProp JNull ''type'' = Inl TypeError \<and>
   on_message 0 (Some JNull) paired = paired \<and>
   on_message 0 None paired = paired"
proof -
  note t = C8_bad_input_is_discarded [of 0 paired]
  have 1: "on_message 0 (Some (JObj 1 [(''type'', JStr ''hello'')])) paired = paired"
    using t [of "JObj 1 [(''type'', JStr ''hello'')]"] by simp
  have 2: "on_message 0 (Some JNull) paired = paired"
    using t [of JNull] by simp
  have 3: "on_message 0 None paired = paired"
    using t [of JNull] by blast
  from 1 2 3 show ?thesis by simp
qed

subsection \<open>Registration\<close>

text \<open>
  C3. The claim is that \<open>registerHost\<close> fails with the code-in-use error exactly when the
  code is in the waiting-hosts map, and succeeds for every non-empty code that is not.
  The code has a check before that one: a code that is falsy or whose \<open>length\<close> is not 9
  is refused with the invalid-code error, and nothing else changes. At the non-empty code
  \<open>ABC\<close>, which no host waits under, the registration is refused, by \<open>registerHost\<close>
  and by \<open>handleRegisterHost\<close>.
\<close>

theorem C3_short_code_counterexample:
  "truthy (JStr ''ABC'') \<and> waitingHosts alone (JStr ''ABC'') = None \<and>
   registerHost 0 (register_host_msg 1 (JStr ''ABC'') (JStr ''idA'') (JStr ''A'')) alone
     = Inr (send 0 (Error_frame Codigo_invalido) alone) \<and>
   handleRegisterHost 0 (register_host_msg 1 (JStr ''ABC'') (JStr ''idA'') (JStr ''A'')) alone
     = Inr (send 0 (Error_frame Codigo_invalido) alone) \<and>
   role (conns (send 0 (Error_frame Codigo_invalido) alone) 0) = None \<and>
   waitingHosts (send 0 (Error_frame Codigo_invalido) alone) (JStr ''ABC'') = None \<and>
   sent (conns (send 0 (Error_frame Codigo_invalido) alone) 0) = [Error_frame Codigo_invalido]"
  by (simp add: alone_state registerHost_def handleRegisterHost_def destructure_msg
      invalidCode_def lengthOrZero_def template_throws_def send_def upd_conn_def newConn_def
      waitingHosts_def)

text \<open>
  C3, as the code has it. With the fields \<open>code\<close>, \<open>device_id\<close> and \<open>device_name\<close> of
  the message, all three convertible to strings (the first log of \<open>registerHost\<close> prints
  them): the reply is the code-in-use error exactly when the code passes the length check
  and is in the waiting-hosts map, and the reply is then the only change. A code that
  fails the check gets the invalid-code error and nothing else changes (the log of this
  branch prints the code's length). A code that passes the check and is not in the map is
  registered: the connection becomes a host with this code, device id and device name,
  the map gets the entry, the sessions and the other connections are unchanged, and the
  reply is \<open>registered\<close> with the code (the log of this branch prints the keys of the
  map, which can be converted to strings in every state the server reaches). A string
  passes the check exactly when its length is 9. \<open>handleRegisterHost\<close> does the same,
  with its own text for a code in use.
\<close>

theorem C3_registerHost:
  assumes "destructure message = Inr (code, device_id, device_name)"
    and "\<not> template_throws [code, device_name, device_id]"
  shows "(sent (conns (state_of (registerHost ws message s)) ws)
            = sent (conns s ws) @ [Error_frame Codigo_en_uso]
        \<longleftrightarrow> \<not> invalidCode code \<and> waitingHosts s code \<noteq> None) \<and>
     (invalidCode code \<and> \<not> toString_throws (lengthOrZero code) \<longrightarrow>
        registerHost ws message s = Inr (send ws (Error_frame Codigo_invalido) s)) \<and>
     (\<not> invalidCode code \<and> waitingHosts s code \<noteq> None \<longrightarrow>
        registerHost ws message s = Inr (send ws (Error_frame Codigo_en_uso) s)) \<and>
     (\<not> invalidCode code \<and> waitingHosts s code = None \<and>
      \<not> template_throws (map fst (waitingEntries s)) \<longrightarrow>
        (\<exists>s'. registerHost ws message s = Inr s' \<and>
           role (conns s' ws) = Some Host \<and> sessionCode (conns s' ws) = code \<and>
           deviceId (conns s' ws) = device_id \<and> deviceName (conns s' ws) = device_name \<and>
           waitingHosts s' = (waitingHosts s)(code \<mapsto> ws) \<and> sessions s' = sessions s \<and>
           sent (conns s' ws) = sent (conns s ws) @ [Registered code] \<and>
           (\<forall>c. c \<noteq> ws \<longrightarrow> conns s' c = conns s c))) \<and>
     (\<forall>x. code = JStr x \<longrightarrow> (invalidCode code \<longleftrightarrow> length x \<noteq> 9)) \<and>
     (sent (conns (state_of (handleRegisterHost ws message s)) ws)
            = sent (conns s ws) @ [Error_frame Codigo_ya_en_uso]
        \<longleftrightarrow> \<not> invalidCode code \<and> waitingHosts s code \<noteq> None) \<and>
     (invalidCode code \<longrightarrow>
        handleRegisterHost ws message s = Inr (send ws (Error_frame Codigo_invalido) s)) \<and>
     (\<not> invalidCode code \<and> waitingHosts s code \<noteq> None \<longrightarrow>
        handleRegisterHost ws message s = Inr (send ws (Error_frame Codigo_ya_en_uso) s)) \<and>
     (\<not> invalidCode code \<and> waitingHosts s code = None \<longrightarrow>
        (\<exists>s'. handleRegisterHost ws message s = Inr s' \<and>
           role (conns s' ws) = Some Host \<and> sessionCode (conns s' ws) = code \<and>
           deviceId (conns s' ws) = device_id \<and> deviceName (conns s' ws) = device_name \<and>
           waitingHosts s' = (waitingHosts s)(code \<mapsto> ws) \<and> sessions s' = sessions s \<and>
           sent (conns s' ws) = sent (conns s ws) @ [Registered code] \<and>
           (\<forall>c. c \<noteq> ws \<longrightarrow> conns s' c = conns s c))) \<and>
     \<not> template_throws (map fst (waitingEntries (run es init_state)))"
proof -
  from assms(2) have p: "\<not> toString_throws code" "\<not> toString_throws device_name"
    by (simp_all add: template_throws_def)
  then have q: "\<not> template_throws [device_name, code]"
    by (simp add: template_throws_def)
  have k: "\<not> template_throws (map fst (waitingEntries s)) \<Longrightarrow>
      \<not> template_throws (map fst (AList.update code ws (waitingEntries s)))"
    using p(1) by (simp add: update_printable)
  have a: "sent (conns (state_of (registerHost ws message s)) ws)
            = sent (conns s ws) @ [Error_frame Codigo_en_uso]
        \<longleftrightarrow> \<not> invalidCode code \<and> waitingHosts s code \<noteq> None"
    using assms
    by (auto simp: registerHost_def state_of_simps send_sent send_fields
          registry_update_fields upd_conn_def Let_def)
  have b: "invalidCode code \<and> \<not> toString_throws (lengthOrZero code) \<longrightarrow>
        registerHost ws message s = Inr (send ws (Error_frame Codigo_invalido) s)"
    using assms p by (simp add: registerHost_def template_throws_def)
  have c: "\<not> invalidCode code \<and> waitingHosts s code \<noteq> None \<longrightarrow>
        registerHost ws message s = Inr (send ws (Error_frame Codigo_en_uso) s)"
    using assms by (simp add: registerHost_def)
  have d: "\<not> invalidCode code \<and> waitingHosts s code = None \<and>
      \<not> template_throws (map fst (waitingEntries s)) \<longrightarrow>
        (\<exists>s'. registerHost ws message s = Inr s' \<and>
           role (conns s' ws) = Some Host \<and> sessionCode (conns s' ws) = code \<and>
           deviceId (conns s' ws) = device_id \<and> deviceName (conns s' ws) = device_name \<and>
           waitingHosts s' = (waitingHosts s)(code \<mapsto> ws) \<and> sessions s' = sessions s \<and>
           sent (conns s' ws) = sent (conns s ws) @ [Registered code] \<and>
           (\<forall>c. c \<noteq> ws \<longrightarrow> conns s' c = conns s c))"
  proof (intro impI, elim conjE)
    assume v: "\<not> invalidCode code" and n: "waitingHosts s code = None"
      and t: "\<not> template_throws (map fst (waitingEntries s))"
    from k [OF t]
    have u: "\<not> template_throws (map fst (AList.update code ws (waitingEntries s)))" .
    from assms v n u
    show "\<exists>s'. registerHost ws message s = Inr s' \<and>
           role (conns s' ws) = Some Host \<and> sessionCode (conns s' ws) = code \<and>
           deviceId (conns s' ws) = device_id \<and> deviceName (conns s' ws) = device_name \<and>
           waitingHosts s' = (waitingHosts s)(code \<mapsto> ws) \<and> sessions s' = sessions s \<and>
           sent (conns s' ws) = sent (conns s ws) @ [Registered code] \<and>
           (\<forall>c. c \<noteq> ws \<longrightarrow> conns s' c = conns s c)"
      by (simp add: registerHost_def Let_def registry_update_fields waitingHosts_simps
          send_fields send_sent)
         (simp add: send_def upd_conn_def waitingHosts_set_def)
  qed
  have e: "\<forall>x. code = JStr x \<longrightarrow> (invalidCode code \<longleftrightarrow> length x \<noteq> 9)"
    by (simp add: invalidCode_JStr)
  have f: "sent (conns (state_of (handleRegisterHost ws message s)) ws)
            = sent (conns s ws) @ [Error_frame Codigo_ya_en_uso]
        \<longleftrightarrow> \<not> invalidCode code \<and> waitingHosts s code \<noteq> None"
    using assms
    by (auto simp: handleRegisterHost_def state_of_simps send_sent send_fields
          registry_update_fields upd_conn_def Let_def)
  have g: "invalidCode code \<longrightarrow>
        handleRegisterHost ws message s = Inr (send ws (Error_frame Codigo_invalido) s)"
    using assms by (simp add: handleRegisterHost_def)
  have h: "\<not> invalidCode code \<and> waitingHosts s code \<noteq> None \<longrightarrow>
        handleRegisterHost ws message s = Inr (send ws (Error_frame Codigo_ya_en_uso) s)"
    using assms by (simp add: handleRegisterHost_def)
  have i: "\<not> invalidCode code \<and> waitingHosts s code = None \<longrightarrow>
        (\<exists>s'. handleRegisterHost ws message s = Inr s' \<and>
           role (conns s' ws) = Some Host \<and> sessionCode (conns s' ws) = code \<and>
           deviceId (conns s' ws) = device_id \<and> deviceName (conns s' ws) = device_name \<and>
           waitingHosts s' = (waitingHosts s)(code \<mapsto> ws) \<and> sessions s' = sessions s \<and>
           sent (conns s' ws) = sent (conns s ws) @ [Registered code] \<and>
           (\<forall>c. c \<noteq> ws \<longrightarrow> conns s' c = conns s c))"
    using assms q
    by (simp add: handleRegisterHost_def Let_def registry_update_fields waitingHosts_simps
        send_fields send_sent)
       (simp add: send_def upd_conn_def waitingHosts_set_def)
  have j: "\<not> template_throws (map fst (waitingEntries (run es init_state)))"
    using reachable_printable [of es] by (simp add: printable_codes_def)
  from a b c d e f g h i j show ?thesis by blast
qed


theorem C3_registerHost_witness:
  "destructure (register_host_msg 1 code_ABC (JStr ''idA'') (JStr ''A''))
     = Inr (code_ABC, JStr ''idA'', JStr ''A'') \<and>
   \<not> template_throws [code_ABC, JStr ''A'', JStr ''idA''] \<and>
   \<not> invalidCode code_ABC \<and> waitingHosts alone code_ABC = None \<and>
   \<not> template_throws (map fst (waitingEntries alone)) \<and>
   (\<exists>s'. registerHost 0 (register_host_msg 1 code_ABC (JStr ''idA'') (JStr ''A'')) alone
            = Inr s' \<and>
      role (conns s' 0) = Some Host \<and> sessionCode (conns s' 0) = code_ABC \<and>
      waitingHosts s' = (waitingHosts alone)(code_ABC \<mapsto> 0) \<and>
      sent (conns s' 0) = [Registered code_ABC]) \<and>
   waitingHosts A_waiting code_ABC = Some 0 \<and>
   registerHost 1 (register_host_msg 3 code_ABC (JStr ''idB'') (JStr ''B'')) A_waiting
     = Inr (send 1 (Error_frame Codigo_en_uso) A_waiting) \<and>
   handleRegisterHost 1 (register_host_msg 3 code_ABC (JStr ''idB'') (JStr ''B'')) A_waiting
     = Inr (send 1 (Error_frame Codigo_ya_en_uso) A_waiting) \<and>
   invalidCode (JStr ''ABCDEFGHIJ'') \<and>
   \<not> toString_throws (lengthOrZero (JStr ''ABCDEFGHIJ'')) \<and>
   registerHost 0 (register_host_msg 1 (JStr ''ABCDEFGHIJ'') (JStr ''idA'') (JStr ''A'')) alone
     = Inr (send 0 (Error_frame Codigo_invalido) alone)"
proof -
  have v: "\<not> invalidCode code_ABC" by (rule valid_codes)
  have w: "waitingHosts alone code_ABC = None" by (simp add: alone_state)
  have k: "\<not> template_throws (map fst (waitingEntries alone))"
    by (simp add: alone_state template_throws_def)
  have u: "waitingHosts A_waiting code_ABC = Some 0" by (simp add: A_waiting_registry)
  have i: "invalidCode (JStr ''ABCDEFGHIJ'')"
    "\<not> toString_throws (lengthOrZero (JStr ''ABCDEFGHIJ''))"
    by (simp_all add: invalidCode_def lengthOrZero_def)
  have p: "\<not> template_throws [code_ABC, JStr ''A'', JStr ''idA'']"
    "\<not> template_throws [code_ABC, JStr ''B'', JStr ''idB'']"
    "\<not> template_throws [JStr ''ABCDEFGHIJ'', JStr ''A'', JStr ''idA'']"
    by (simp_all add: template_throws_def code_ABC_def)
  note a = C3_registerHost
      [where message = "register_host_msg 1 code_ABC (JStr ''idA'') (JStr ''A'')"
         and ws = 0 and s = alone, OF destructure_msg(1) p(1)]
  note b = C3_registerHost
      [where message = "register_host_msg 3 code_ABC (JStr ''idB'') (JStr ''B'')"
         and ws = 1 and s = A_waiting, OF destructure_msg(1) p(2)]
  note c = C3_registerHost
      [where message = "register_host_msg 1 (JStr ''ABCDEFGHIJ'') (JStr ''idA'') (JStr ''A'')"
         and ws = 0 and s = alone, OF destructure_msg(1) p(3)]
  from a [THEN conjunct2, THEN conjunct2, THEN conjunct2, THEN conjunct1] v w k
  have 1: "\<exists>s'. registerHost 0 (register_host_msg 1 code_ABC (JStr ''idA'') (JStr ''A'')) alone
            = Inr s' \<and>
      role (conns s' 0) = Some Host \<and> sessionCode (conns s' 0) = code_ABC \<and>
      waitingHosts s' = (waitingHosts alone)(code_ABC \<mapsto> 0) \<and>
      sent (conns s' 0) = [Registered code_ABC]"
    by (auto simp: alone_state newConn_def)
  from b [THEN conjunct2, THEN conjunct2, THEN conjunct1] v u
  have 2: "registerHost 1 (register_host_msg 3 code_ABC (JStr ''idB'') (JStr ''B'')) A_waiting
     = Inr (send 1 (Error_frame Codigo_en_uso) A_waiting)"
    by simp
  from b [THEN conjunct2, THEN conjunct2, THEN conjunct2, THEN conjunct2, THEN conjunct2,
      THEN conjunct2, THEN conjunct2, THEN conjunct1] v u
  have 3: "handleRegisterHost 1 (register_host_msg 3 code_ABC (JStr ''idB'') (JStr ''B''))
      A_waiting = Inr (send 1 (Error_frame Codigo_ya_en_uso) A_waiting)"
    by simp
  from c [THEN conjunct2, THEN conjunct1] i
  have 4: "registerHost 0 (register_host_msg 1 (JStr ''ABCDEFGHIJ'') (JStr ''idA'') (JStr ''A''))
      alone = Inr (send 0 (Error_frame Codigo_invalido) alone)"
    by simp
  from destructure_msg(1) p(1) v w k 1 u 2 3 i 4 show ?thesis
    by (intro conjI) (simp_all only: not_False_eq_True)
qed

subsection \<open>Roles\<close>

text \<open>
  C5. The claim is that the role of a connection changes at most once and that a
  \<open>register_host\<close> or \<open>connect_to_host\<close> frame of a connection that is a host or a client
  already changes neither its role nor its code. No handler reads the role before it
  binds: \<open>A\<close>, a host waiting under one code, sends \<open>connect_to_host\<close> with the code under
  which \<open>B\<close> waits, and becomes a client with that code.
\<close>

theorem C5_rebinding_counterexample:
  "role (conns two_hosts 0) = Some Host \<and> sessionCode (conns two_hosts 0) = code_ABC \<and>
   role (conns (run [A_connects_QRS] two_hosts) 0) = Some Client \<and>
   sessionCode (conns (run [A_connects_QRS] two_hosts) 0) = code_QRS \<and>
   code_ABC \<noteq> code_QRS"
  by (simp add: two_hosts_state A_waiting_conns scenario_defs handler_defs)

text \<open>
  C5, as the code has it. A new connection has no role and the code \<open>null\<close>. A frame of
  connection \<open>ws\<close> changes the role and the code of no other connection, and never takes
  the role of \<open>ws\<close> away. It changes the role or the code of \<open>ws\<close> only when it is a
  \<open>register_host\<close> that is accepted (the code passes the length check and is not in the
  waiting-hosts map), which makes \<open>ws\<close> a host with this code, or a \<open>connect_to_host\<close>
  that is accepted (an open host waits under the code), which makes \<open>ws\<close> a client with
  this code. An accepted \<open>connect_to_host\<close> does so whatever the role of \<open>ws\<close> was, and
  so does an accepted \<open>register_host\<close> whose code, device name and device id can be
  converted to strings (the first log of \<open>registerHost\<close> prints them before anything is
  bound). An undecodable frame, a pong, a close and the sweep change no role and no code,
  also when their handler throws.
\<close>

theorem C5_role_transitions:
  assumes "s' = on_message ws (Some message) s"
  shows "role (conns (on_connection s) (nextId s)) = None \<and>
     sessionCode (conns (on_connection s) (nextId s)) = JNull \<and>
     (\<forall>c. c \<noteq> ws \<longrightarrow> role (conns s' c) = role (conns s c) \<and>
                       sessionCode (conns s' c) = sessionCode (conns s c)) \<and>
     (role (conns s ws) \<noteq> None \<longrightarrow> role (conns s' ws) \<noteq> None) \<and>
     (role (conns s' ws) \<noteq> role (conns s ws) \<or>
      sessionCode (conns s' ws) \<noteq> sessionCode (conns s ws) \<longrightarrow>
        (\<exists>code. getProp message ''code'' = Inr code \<and> sessionCode (conns s' ws) = code \<and>
           (getProp message ''type'' = Inr (JStr ''register_host'') \<and> \<not> invalidCode code \<and>
              waitingHosts s code = None \<and> role (conns s' ws) = Some Host \<or>
            getProp message ''type'' = Inr (JStr ''connect_to_host'') \<and>
              (\<exists>h. waitingHosts s code = Some h \<and> readyState (conns s h) = OPEN) \<and>
              role (conns s' ws) = Some Client))) \<and>
     (\<forall>code device_id device_name.
        getProp message ''type'' = Inr (JStr ''register_host'') \<and>
        destructure message = Inr (code, device_id, device_name) \<and>
        \<not> template_throws [code, device_name, device_id] \<and> \<not> invalidCode code \<and>
        waitingHosts s code = None \<longrightarrow>
          role (conns s' ws) = Some Host \<and> sessionCode (conns s' ws) = code) \<and>
     (\<forall>code h. getProp message ''type'' = Inr (JStr ''connect_to_host'') \<and>
        getProp message ''code'' = Inr code \<and> waitingHosts s code = Some h \<and>
        readyState (conns s h) = OPEN \<longrightarrow>
          role (conns s' ws) = Some Client \<and> sessionCode (conns s' ws) = code) \<and>
     (\<forall>c. conns (on_message ws None s) c = conns s c) \<and>
     (\<forall>c w. role (conns (state_of (on_pong w s)) c) = role (conns s c) \<and>
            sessionCode (conns (state_of (on_pong w s)) c) = sessionCode (conns s c)) \<and>
     (\<forall>c w. role (conns (state_of (on_close w s)) c) = role (conns s c) \<and>
            sessionCode (conns (state_of (on_close w s)) c) = sessionCode (conns s c)) \<and>
     (\<forall>c. role (conns (state_of (pingInterval s)) c) = role (conns s c) \<and>
          sessionCode (conns (state_of (pingInterval s)) c) = sessionCode (conns s c))"
proof -
  have a: "role (conns (on_connection s) (nextId s)) = None \<and>
     sessionCode (conns (on_connection s) (nextId s)) = JNull"
    by (simp add: on_connection_def newConn_def)
  have b: "\<forall>c. c \<noteq> ws \<longrightarrow> role (conns s' c) = role (conns s c) \<and>
                       sessionCode (conns s' c) = sessionCode (conns s c)"
    using on_message_frame [of ws "Some message" s] assms by blast
  have c: "role (conns s ws) \<noteq> None \<longrightarrow> role (conns s' ws) \<noteq> None"
    using on_message_frame [of ws "Some message" s ws] assms by blast
  have d: "role (conns s' ws) \<noteq> role (conns s ws) \<or>
      sessionCode (conns s' ws) \<noteq> sessionCode (conns s ws) \<longrightarrow>
        (\<exists>code. getProp message ''code'' = Inr code \<and> sessionCode (conns s' ws) = code \<and>
           (getProp message ''type'' = Inr (JStr ''register_host'') \<and> \<not> invalidCode code \<and>
              waitingHosts s code = None \<and> role (conns s' ws) = Some Host \<or>
            getProp message ''type'' = Inr (JStr ''connect_to_host'') \<and>
              (\<exists>h. waitingHosts s code = Some h \<and> readyState (conns s h) = OPEN) \<and>
              role (conns s' ws) = Some Client))"
    using on_message_rebinding [OF assms] by blast
  have e: "\<forall>code device_id device_name.
        getProp message ''type'' = Inr (JStr ''register_host'') \<and>
        destructure message = Inr (code, device_id, device_name) \<and>
        \<not> template_throws [code, device_name, device_id] \<and> \<not> invalidCode code \<and>
        waitingHosts s code = None \<longrightarrow>
          role (conns s' ws) = Some Host \<and> sessionCode (conns s' ws) = code"
    using on_message_register_accepted [of message _ _ _ s ws] assms by blast
  have f: "\<forall>code h. getProp message ''type'' = Inr (JStr ''connect_to_host'') \<and>
        getProp message ''code'' = Inr code \<and> waitingHosts s code = Some h \<and>
        readyState (conns s h) = OPEN \<longrightarrow>
          role (conns s' ws) = Some Client \<and> sessionCode (conns s' ws) = code"
    using on_message_connect_accepted [of message _ s _ ws] assms by blast
  have g: "\<forall>c. conns (on_message ws None s) c = conns s c"
    by (simp add: on_message_def)
  have h: "\<forall>c w. role (conns (state_of (on_pong w s)) c) = role (conns s c) \<and>
            sessionCode (conns (state_of (on_pong w s)) c) = sessionCode (conns s c)"
    by (simp add: on_pong_fields)
  have i: "\<forall>c w. role (conns (state_of (on_close w s)) c) = role (conns s c) \<and>
            sessionCode (conns (state_of (on_close w s)) c) = sessionCode (conns s c)"
    by (simp add: on_close_fields)
  have j: "\<forall>c. role (conns (state_of (pingInterval s)) c) = role (conns s c) \<and>
          sessionCode (conns (state_of (pingInterval s)) c) = sessionCode (conns s c)"
    by (simp add: pingInterval_def sweepAll_binding)
  from a b c d e f g h i j show ?thesis by blast
qed

theorem C5_role_transitions_witness:
  "role (conns (on_connection two_hosts) (nextId two_hosts)) = None \<and>
   getProp (connect_to_host_msg 7 code_QRS (JStr ''idA'') (JStr ''A'')) ''type''
     = Inr (JStr ''connect_to_host'') \<and>
   getProp (connect_to_host_msg 7 code_QRS (JStr ''idA'') (JStr ''A'')) ''code'' = Inr code_QRS \<and>
   waitingHosts two_hosts code_QRS = Some 1 \<and> readyState (conns two_hosts 1) = OPEN \<and>
   role (conns two_hosts 0) = Some Host \<and>
   role (conns (on_message 0 (Some (connect_to_host_msg 7 code_QRS (JStr ''idA'') (JStr ''A'')))
                  two_hosts) 0) = Some Client \<and>
   sessionCode (conns (on_message 0 (Some (connect_to_host_msg 7 code_QRS (JStr ''idA'')
                  (JStr ''A''))) two_hosts) 0) = code_QRS \<and>
   role (conns (on_message 0 (Some (connect_to_host_msg 7 code_QRS (JStr ''idA'') (JStr ''A'')))
                  two_hosts) 1) = Some Host \<and>
   getProp (register_host_msg 6 code_QRS (JStr ''idA'') (JStr ''A'')) ''type''
     = Inr (JStr ''register_host'') \<and>
   destructure (register_host_msg 6 code_QRS (JStr ''idA'') (JStr ''A''))
     = Inr (code_QRS, JStr ''idA'', JStr ''A'') \<and>
   \<not> template_throws [code_QRS, JStr ''A'', JStr ''idA''] \<and>
   \<not> invalidCode code_QRS \<and> waitingHosts A_waiting code_QRS = None \<and>
   role (conns (on_message 0 (Some (register_host_msg 6 code_QRS (JStr ''idA'') (JStr ''A'')))
                  A_waiting) 0) = Some Host \<and>
   sessionCode (conns (on_message 0 (Some (register_host_msg 6 code_QRS (JStr ''idA'')
                  (JStr ''A''))) A_waiting) 0) = code_QRS"
proof -
  have a: "waitingHosts two_hosts code_QRS = Some 1" "readyState (conns two_hosts 1) = OPEN"
    "role (conns two_hosts 0) = Some Host" "role (conns two_hosts 1) = Some Host"
    by (simp_all add: two_hosts_state A_waiting_conns code_ABC_def code_QRS_def)
  have b: "waitingHosts A_waiting code_QRS = None"
    by (simp add: A_waiting_registry code_ABC_def code_QRS_def)
  have p: "\<not> template_throws [code_QRS, JStr ''A'', JStr ''idA'']"
    by (simp add: template_throws_def code_QRS_def)
  have n: "(1::nat) \<noteq> 0" by simp
  note t = C5_role_transitions
      [where s = two_hosts and ws = 0
         and message = "connect_to_host_msg 7 code_QRS (JStr ''idA'') (JStr ''A'')", OF refl]
  note r = C5_role_transitions
      [where s = A_waiting and ws = 0
         and message = "register_host_msg 6 code_QRS (JStr ''idA'') (JStr ''A'')", OF refl]
  note t1 = t [THEN conjunct1]
  note t3 = t [THEN conjunct2, THEN conjunct2, THEN conjunct1]
  note t7 = t [THEN conjunct2, THEN conjunct2, THEN conjunct2, THEN conjunct2,
      THEN conjunct2, THEN conjunct2, THEN conjunct1]
  note r6 = r [THEN conjunct2, THEN conjunct2, THEN conjunct2, THEN conjunct2,
      THEN conjunct2, THEN conjunct1]
  from t7 getProp_msg(3,4) a(1,2)
  have 2: "role (conns (on_message 0 (Some (connect_to_host_msg 7 code_QRS (JStr ''idA'')
              (JStr ''A''))) two_hosts) 0) = Some Client \<and>
      sessionCode (conns (on_message 0 (Some (connect_to_host_msg 7 code_QRS (JStr ''idA'')
              (JStr ''A''))) two_hosts) 0) = code_QRS"
    by blast
  from t3 n
  have "role (conns (on_message 0 (Some (connect_to_host_msg 7 code_QRS (JStr ''idA'')
              (JStr ''A''))) two_hosts) 1) = role (conns two_hosts 1)"
    by blast
  with a(4)
  have 3: "role (conns (on_message 0 (Some (connect_to_host_msg 7 code_QRS (JStr ''idA'')
              (JStr ''A''))) two_hosts) 1) = Some Host"
    by simp
  from r6 getProp_msg(1) destructure_msg(1) p valid_codes(2) b
  have 4: "role (conns (on_message 0 (Some (register_host_msg 6 code_QRS (JStr ''idA'')
              (JStr ''A''))) A_waiting) 0) = Some Host \<and>
      sessionCode (conns (on_message 0 (Some (register_host_msg 6 code_QRS (JStr ''idA'')
              (JStr ''A''))) A_waiting) 0) = code_QRS"
    by blast
  from t1 getProp_msg(3,4) a(1,2,3) 2 3 getProp_msg(1) destructure_msg(1) p valid_codes(2) b 4
  show ?thesis
    by (intro conjI) (simp_all only: not_False_eq_True)
qed

subsection \<open>The liveness sweep\<close>

text \<open>
  C9. One tick of the ping interval, over the connections of \<open>wss.clients\<close> (a set: no
  connection twice), in a state in which the code of every connection can be converted to
  a string; every state the server reaches is such a state. The callback returns. But
  for the liveness flags and the ping counts, the state it leaves is the one that the
  teardown followed by \<open>terminate\<close>, applied in the order of the sweep to the
  connections whose flag was false, leaves: the same registries, the same frames handed
  to every connection (the \<open>peer_disconnected\<close> of each teardown among them) and the
  same \<open>readyState\<close> of every connection; an open connection whose flag was false is
  closing. A connection whose flag is true has the flag cleared, gets one ping and keeps
  its \<open>readyState\<close>; the flag and the ping count of every other connection are as
  before. Consequently, from a state in which the flag of a connection is true, whatever
  happens before the next tick, that tick does not terminate the connection: only a later
  tick can, a full period after.

  The sweep of the inline variant only terminates: it changes no registry and sends no
  frame. It leaves an open connection whose flag was false closing, and the teardown is
  the \<open>close\<close> handler, which runs at the close event that follows \<open>terminate\<close>:
  after it the connection is closed and out of \<open>wss.clients\<close>, it no longer waits
  under its code and no session is left under its code. The connections whose flag is
  true are probed in the same way, and the same bound on the latency holds.
\<close>

theorem C9_liveness_sweep:
  "(distinct (clients s) \<and> (\<forall>c. \<not> toString_throws (sessionCode (conns s c))) \<longrightarrow>
      (\<exists>s'. pingInterval s = Inr s' \<and>
         same_but_liveness s'
           (fold (\<lambda>c t. terminate c (state_of (handleDisconnect c t)))
                 (filter (\<lambda>c. \<not> isAlive (conns s c)) (clients s)) s) \<and>
         (\<forall>c\<in>set (clients s). \<not> isAlive (conns s c) \<and> readyState (conns s c) = OPEN \<longrightarrow>
              readyState (conns s' c) = CLOSING) \<and>
         (\<forall>c\<in>set (clients s). isAlive (conns s c) \<longrightarrow>
              \<not> isAlive (conns s' c) \<and> pings (conns s' c) = Suc (pings (conns s c)) \<and>
              readyState (conns s' c) = readyState (conns s c)) \<and>
         (\<forall>c. \<not> isAlive (conns s c) \<or> c \<notin> set (clients s) \<longrightarrow>
              isAlive (conns s' c) = isAlive (conns s c) \<and>
              pings (conns s' c) = pings (conns s c)))) \<and>
   (distinct (clients s) \<and> (\<forall>c\<in>set (clients s). c < nextId s) \<and>
    isAlive (conns s c) \<and> Sweep \<notin> set es \<longrightarrow>
      readyState (conns (run (es @ [Sweep]) s) c) = readyState (conns (run es s) c)) \<and>
   (distinct (clients (run es init_state)) \<and>
    (\<forall>c. \<not> toString_throws (sessionCode (conns (run es init_state) c)))) \<and>
   (distinct (clients s) \<and> (\<forall>c\<in>set (clients s). c < nextId s) \<longrightarrow>
      waitingEntries (inline_sweep s) = waitingEntries s \<and>
      sessions (inline_sweep s) = sessions s \<and>
      (\<forall>c. sent (conns (inline_sweep s) c) = sent (conns s c)) \<and>
      (\<forall>c\<in>set (clients s). \<not> isAlive (conns s c) \<and> readyState (conns s c) = OPEN \<longrightarrow>
           readyState (conns (inline_sweep s) c) = CLOSING \<and>
           inline_step (Close c) (inline_sweep s) =
             inline_on_close c
               ((upd_conn c (\<lambda>k. k\<lparr>readyState := CLOSED\<rparr>) (inline_sweep s))
                  \<lparr>clients := removeAll c (clients s)\<rparr>) \<and>
           readyState (conns (inline_step (Close c) (inline_sweep s)) c) = CLOSED \<and>
           c \<notin> set (clients (inline_step (Close c) (inline_sweep s))) \<and>
           (truthy (sessionCode (conns s c)) \<longrightarrow>
              waitingHosts (inline_step (Close c) (inline_sweep s)) (sessionCode (conns s c))
                \<noteq> Some c \<and>
              sessions (inline_step (Close c) (inline_sweep s)) (sessionCode (conns s c))
                = None)) \<and>
      (\<forall>c\<in>set (clients s). isAlive (conns s c) \<longrightarrow>
           \<not> isAlive (conns (inline_sweep s) c) \<and>
           pings (conns (inline_sweep s) c) = Suc (pings (conns s c)) \<and>
           readyState (conns (inline_sweep s) c) = readyState (conns s c))) \<and>
   (distinct (clients s) \<and> (\<forall>c\<in>set (clients s). c < nextId s) \<and>
    isAlive (conns s c) \<and> Sweep \<notin> set es \<longrightarrow>
      readyState (conns (inline_run (es @ [Sweep]) s) c)
        = readyState (conns (inline_run es s) c)) \<and>
   distinct (clients (inline_run es init_state))"
proof -
  have A: "distinct (clients s) \<and> (\<forall>c. \<not> toString_throws (sessionCode (conns s c))) \<longrightarrow>
      (\<exists>s'. pingInterval s = Inr s' \<and>
         same_but_liveness s'
           (fold (\<lambda>c t. terminate c (state_of (handleDisconnect c t)))
                 (filter (\<lambda>c. \<not> isAlive (conns s c)) (clients s)) s) \<and>
         (\<forall>c\<in>set (clients s). \<not> isAlive (conns s c) \<and> readyState (conns s c) = OPEN \<longrightarrow>
              readyState (conns s' c) = CLOSING) \<and>
         (\<forall>c\<in>set (clients s). isAlive (conns s c) \<longrightarrow>
              \<not> isAlive (conns s' c) \<and> pings (conns s' c) = Suc (pings (conns s c)) \<and>
              readyState (conns s' c) = readyState (conns s c)) \<and>
         (\<forall>c. \<not> isAlive (conns s c) \<or> c \<notin> set (clients s) \<longrightarrow>
              isAlive (conns s' c) = isAlive (conns s c) \<and>
              pings (conns s' c) = pings (conns s c)))"
  proof (intro impI, elim conjE)
    assume d: "distinct (clients s)"
      and p: "\<forall>c. \<not> toString_throws (sessionCode (conns s c))"
    let ?s' = "state_of (sweepAll (clients s) s)"
    from sweepAll_sim [OF same_but_liveness_refl d p]
    have r: "sweepAll (clients s) s = Inr ?s'"
      and m: "same_but_liveness ?s'
           (fold (\<lambda>c t. terminate c (state_of (handleDisconnect c t)))
                 (filter (\<lambda>c. \<not> isAlive (conns s c)) (clients s)) s)"
      by simp_all
    have i: "\<forall>c\<in>set (clients s). isAlive (conns ?s' c) = False \<and>
       readyState (conns ?s' c) =
         (if isAlive (conns s c) \<or> readyState (conns s c) = CLOSED then readyState (conns s c)
          else CLOSING) \<and>
       pings (conns ?s' c) =
         (if isAlive (conns s c) then Suc (pings (conns s c)) else pings (conns s c))"
      using sweepAll_in [OF d _ r] by blast
    have n: "\<forall>c. c \<notin> set (clients s) \<longrightarrow> isAlive (conns ?s' c) = isAlive (conns s c) \<and>
       pings (conns ?s' c) = pings (conns s c)"
      by (simp add: sweepAll_notin)
    have 1: "pingInterval s = Inr ?s'"
      unfolding pingInterval_def by (rule r)
    have 2: "\<forall>c\<in>set (clients s). \<not> isAlive (conns s c) \<and> readyState (conns s c) = OPEN \<longrightarrow>
              readyState (conns ?s' c) = CLOSING"
      using i by simp
    have 3: "\<forall>c\<in>set (clients s). isAlive (conns s c) \<longrightarrow>
              \<not> isAlive (conns ?s' c) \<and> pings (conns ?s' c) = Suc (pings (conns s c)) \<and>
              readyState (conns ?s' c) = readyState (conns s c)"
      using i by simp
    have 4: "\<forall>c. \<not> isAlive (conns s c) \<or> c \<notin> set (clients s) \<longrightarrow>
              isAlive (conns ?s' c) = isAlive (conns s c) \<and>
              pings (conns ?s' c) = pings (conns s c)"
    proof (intro allI impI)
      fix c
      assume h: "\<not> isAlive (conns s c) \<or> c \<notin> set (clients s)"
      show "isAlive (conns ?s' c) = isAlive (conns s c) \<and>
              pings (conns ?s' c) = pings (conns s c)"
      proof (cases "c \<in> set (clients s)")
        case True
        with h have "\<not> isAlive (conns s c)" by simp
        with i True show ?thesis by simp
      next
        case False
        with n show ?thesis by simp
      qed
    qed
    from 1 m 2 3 4 show "\<exists>s'. pingInterval s = Inr s' \<and>
         same_but_liveness s'
           (fold (\<lambda>c t. terminate c (state_of (handleDisconnect c t)))
                 (filter (\<lambda>c. \<not> isAlive (conns s c)) (clients s)) s) \<and>
         (\<forall>c\<in>set (clients s). \<not> isAlive (conns s c) \<and> readyState (conns s c) = OPEN \<longrightarrow>
              readyState (conns s' c) = CLOSING) \<and>
         (\<forall>c\<in>set (clients s). isAlive (conns s c) \<longrightarrow>
              \<not> isAlive (conns s' c) \<and> pings (conns s' c) = Suc (pings (conns s c)) \<and>
              readyState (conns s' c) = readyState (conns s c)) \<and>
         (\<forall>c. \<not> isAlive (conns s c) \<or> c \<notin> set (clients s) \<longrightarrow>
              isAlive (conns s' c) = isAlive (conns s c) \<and>
              pings (conns s' c) = pings (conns s c))"
      by (intro exI [of _ ?s'] conjI)
  qed
  have B: "distinct (clients s) \<and> (\<forall>c\<in>set (clients s). c < nextId s) \<and>
    isAlive (conns s c) \<and> Sweep \<notin> set es \<longrightarrow>
      readyState (conns (run (es @ [Sweep]) s) c) = readyState (conns (run es s) c)"
  proof (intro impI, elim conjE)
    assume d: "distinct (clients s)" and b: "\<forall>c\<in>set (clients s). c < nextId s"
      and a: "isAlive (conns s c)" and e: "Sweep \<notin> set es"
    from e a have "isAlive (conns (run es s) c)"
      by (rule run_isAlive)
    moreover have "distinct (clients (run es s))"
      using run_clients [OF d b, of es] by simp
    ultimately show "readyState (conns (run (es @ [Sweep]) s) c)
        = readyState (conns (run es s) c)"
      by (simp add: run_append tick_keeps_alive_open)
  qed
  have C: "distinct (clients (run es init_state)) \<and>
    (\<forall>c. \<not> toString_throws (sessionCode (conns (run es init_state) c)))"
    using reachable_clients [of es] reachable_printable [of es]
    by (simp add: printable_codes_def)
  have D: "distinct (clients s) \<and> (\<forall>c\<in>set (clients s). c < nextId s) \<longrightarrow>
      waitingEntries (inline_sweep s) = waitingEntries s \<and>
      sessions (inline_sweep s) = sessions s \<and>
      (\<forall>c. sent (conns (inline_sweep s) c) = sent (conns s c)) \<and>
      (\<forall>c\<in>set (clients s). \<not> isAlive (conns s c) \<and> readyState (conns s c) = OPEN \<longrightarrow>
           readyState (conns (inline_sweep s) c) = CLOSING \<and>
           inline_step (Close c) (inline_sweep s) =
             inline_on_close c
               ((upd_conn c (\<lambda>k. k\<lparr>readyState := CLOSED\<rparr>) (inline_sweep s))
                  \<lparr>clients := removeAll c (clients s)\<rparr>) \<and>
           readyState (conns (inline_step (Close c) (inline_sweep s)) c) = CLOSED \<and>
           c \<notin> set (clients (inline_step (Close c) (inline_sweep s))) \<and>
           (truthy (sessionCode (conns s c)) \<longrightarrow>
              waitingHosts (inline_step (Close c) (inline_sweep s)) (sessionCode (conns s c))
                \<noteq> Some c \<and>
              sessions (inline_step (Close c) (inline_sweep s)) (sessionCode (conns s c))
                = None)) \<and>
      (\<forall>c\<in>set (clients s). isAlive (conns s c) \<longrightarrow>
           \<not> isAlive (conns (inline_sweep s) c) \<and>
           pings (conns (inline_sweep s) c) = Suc (pings (conns s c)) \<and>
           readyState (conns (inline_sweep s) c) = readyState (conns s c))"
  proof (intro impI, elim conjE)
    assume d: "distinct (clients s)" and b: "\<forall>c\<in>set (clients s). c < nextId s"
    have 1: "waitingEntries (inline_sweep s) = waitingEntries s"
      "sessions (inline_sweep s) = sessions s"
      "\<forall>c. sent (conns (inline_sweep s) c) = sent (conns s c)"
      by (simp_all add: inline_sweep_def inline_sweepAll_fields)
    have 2: "\<forall>c\<in>set (clients s). \<not> isAlive (conns s c) \<and> readyState (conns s c) = OPEN \<longrightarrow>
           readyState (conns (inline_sweep s) c) = CLOSING \<and>
           inline_step (Close c) (inline_sweep s) =
             inline_on_close c
               ((upd_conn c (\<lambda>k. k\<lparr>readyState := CLOSED\<rparr>) (inline_sweep s))
                  \<lparr>clients := removeAll c (clients s)\<rparr>) \<and>
           readyState (conns (inline_step (Close c) (inline_sweep s)) c) = CLOSED \<and>
           c \<notin> set (clients (inline_step (Close c) (inline_sweep s))) \<and>
           (truthy (sessionCode (conns s c)) \<longrightarrow>
              waitingHosts (inline_step (Close c) (inline_sweep s)) (sessionCode (conns s c))
                \<noteq> Some c \<and>
              sessions (inline_step (Close c) (inline_sweep s)) (sessionCode (conns s c))
                = None)"
    proof (intro ballI impI, elim conjE)
      fix c
      assume c: "c \<in> set (clients s)" and a: "\<not> isAlive (conns s c)"
        and o: "readyState (conns s c) = OPEN"
      from b c have l: "c < nextId s" by simp
      note t = inline_close_after_sweep [OF d c l a o]
      from t(1) t(2) t(3) t(4) t(5) t(6)
      show "readyState (conns (inline_sweep s) c) = CLOSING \<and>
           inline_step (Close c) (inline_sweep s) =
             inline_on_close c
               ((upd_conn c (\<lambda>k. k\<lparr>readyState := CLOSED\<rparr>) (inline_sweep s))
                  \<lparr>clients := removeAll c (clients s)\<rparr>) \<and>
           readyState (conns (inline_step (Close c) (inline_sweep s)) c) = CLOSED \<and>
           c \<notin> set (clients (inline_step (Close c) (inline_sweep s))) \<and>
           (truthy (sessionCode (conns s c)) \<longrightarrow>
              waitingHosts (inline_step (Close c) (inline_sweep s)) (sessionCode (conns s c))
                \<noteq> Some c \<and>
              sessions (inline_step (Close c) (inline_sweep s)) (sessionCode (conns s c))
                = None)"
        by blast
    qed
    have 3: "\<forall>c\<in>set (clients s). isAlive (conns s c) \<longrightarrow>
           \<not> isAlive (conns (inline_sweep s) c) \<and>
           pings (conns (inline_sweep s) c) = Suc (pings (conns s c)) \<and>
           readyState (conns (inline_sweep s) c) = readyState (conns s c)"
      using inline_sweepAll_in [OF d, of _ s] by (simp add: inline_sweep_def)
    from 1 2 3 show "waitingEntries (inline_sweep s) = waitingEntries s \<and>
      sessions (inline_sweep s) = sessions s \<and>
      (\<forall>c. sent (conns (inline_sweep s) c) = sent (conns s c)) \<and>
      (\<forall>c\<in>set (clients s). \<not> isAlive (conns s c) \<and> readyState (conns s c) = OPEN \<longrightarrow>
           readyState (conns (inline_sweep s) c) = CLOSING \<and>
           inline_step (Close c) (inline_sweep s) =
             inline_on_close c
               ((upd_conn c (\<lambda>k. k\<lparr>readyState := CLOSED\<rparr>) (inline_sweep s))
                  \<lparr>clients := removeAll c (clients s)\<rparr>) \<and>
           readyState (conns (inline_step (Close c) (inline_sweep s)) c) = CLOSED \<and>
           c \<notin> set (clients (inline_step (Close c) (inline_sweep s))) \<and>
           (truthy (sessionCode (conns s c)) \<longrightarrow>
              waitingHosts (inline_step (Close c) (inline_sweep s)) (sessionCode (conns s c))
                \<noteq> Some c \<and>
              sessions (inline_step (Close c) (inline_sweep s)) (sessionCode (conns s c))
                = None)) \<and>
      (\<forall>c\<in>set (clients s). isAlive (conns s c) \<longrightarrow>
           \<not> isAlive (conns (inline_sweep s) c) \<and>
           pings (conns (inline_sweep s) c) = Suc (pings (conns s c)) \<and>
           readyState (conns (inline_sweep s) c) = readyState (conns s c))"
      by (intro conjI)
  qed
  have E: "distinct (clients s) \<and> (\<forall>c\<in>set (clients s). c < nextId s) \<and>
    isAlive (conns s c) \<and> Sweep \<notin> set es \<longrightarrow>
      readyState (conns (inline_run (es @ [Sweep]) s) c)
        = readyState (conns (inline_run es s) c)"
  proof (intro impI, elim conjE)
    assume d: "distinct (clients s)" and b: "\<forall>c\<in>set (clients s). c < nextId s"
      and a: "isAlive (conns s c)" and e: "Sweep \<notin> set es"
    from e a have "isAlive (conns (inline_run es s) c)"
      by (rule inline_run_isAlive)
    moreover have "distinct (clients (inline_run es s))"
      using inline_run_clients [OF d b, of es] by simp
    ultimately show "readyState (conns (inline_run (es @ [Sweep]) s) c)
        = readyState (conns (inline_run es s) c)"
      by (simp add: inline_run_append inline_tick_keeps_alive_open)
  qed
  have F: "distinct (clients (inline_run es init_state))"
    using inline_reachable_clients [of es] by simp
  show ?thesis
    by (rule conjI [OF A conjI [OF B conjI [OF C conjI [OF D conjI [OF E F]]]]])
qed

theorem C9_liveness_sweep_witness:
  "clients host_silent = [0, 1] \<and> nextId host_silent = 2 \<and>
   (\<forall>c. \<not> toString_throws (sessionCode (conns host_silent c))) \<and>
   isAlive (conns host_silent 0) = False \<and> readyState (conns host_silent 0) = OPEN \<and>
   isAlive (conns host_silent 1) = True \<and> sessions host_silent code_ABC = Some (0, 1) \<and>
   (\<exists>s'. pingInterval host_silent = Inr s' \<and>
      readyState (conns s' 0) = CLOSING \<and> sessions s' code_ABC = None \<and>
      sent (conns s' 1) = sent (conns host_silent 1) @ [Peer_disconnected] \<and>
      isAlive (conns s' 1) = False \<and>
      pings (conns s' 1) = Suc (pings (conns host_silent 1)) \<and>
      readyState (conns s' 1) = OPEN) \<and>
   readyState (conns (run ([Pong 1] @ [Sweep]) host_silent) 1)
     = readyState (conns (run [Pong 1] host_silent) 1) \<and>
   clients inline_host_silent = [0, 1] \<and> nextId inline_host_silent = 2 \<and>
   isAlive (conns inline_host_silent 0) = False \<and>
   readyState (conns inline_host_silent 0) = OPEN \<and>
   isAlive (conns inline_host_silent 1) = True \<and>
   sessions (inline_sweep inline_host_silent) code_ABC = Some (0, 1) \<and>
   sent (conns (inline_sweep inline_host_silent) 1) = sent (conns inline_host_silent 1) \<and>
   readyState (conns (inline_sweep inline_host_silent) 0) = CLOSING \<and>
   sessions (inline_step (Close 0) (inline_sweep inline_host_silent)) code_ABC = None \<and>
   sent (conns (inline_step (Close 0) (inline_sweep inline_host_silent)) 1)
     = sent (conns inline_host_silent 1) @ [Peer_disconnected] \<and>
   isAlive (conns (inline_sweep inline_host_silent) 1) = False \<and>
   readyState (conns (inline_sweep inline_host_silent) 1) = OPEN \<and>
   readyState (conns (inline_run ([Pong 1] @ [Sweep]) inline_host_silent) 1)
     = readyState (conns (inline_run [Pong 1] inline_host_silent) 1)"
proof -
  have hs: "host_silent
      = run [Connection, Connection, A_registers, B_connects, Sweep, Pong 1] init_state"
    by (simp add: host_silent_def paired_def)
  note t = C9_liveness_sweep [where s = host_silent and c = 1 and es = "[Pong 1]"]
  note r = C9_liveness_sweep
      [where es = "[Connection, Connection, A_registers, B_connects, Sweep, Pong 1]"]
  note u = C9_liveness_sweep [where s = inline_host_silent and c = 1 and es = "[Pong 1]"]
  have a: "clients host_silent = [0, 1]" "nextId host_silent = 2"
    "isAlive (conns host_silent 0) = False" "readyState (conns host_silent 0) = OPEN"
    "isAlive (conns host_silent 1) = True" "sessions host_silent code_ABC = Some (0, 1)"
    "readyState (conns host_silent 1) = OPEN"
    by (simp_all add: host_silent_state paired_conns)
  have d: "distinct (clients host_silent)" "\<forall>c\<in>set (clients host_silent). c < nextId host_silent"
    "0 \<in> set (clients host_silent)" "1 \<in> set (clients host_silent)"
    "Sweep \<notin> set [Pong 1]"
    by (simp_all add: host_silent_state)
  have p: "\<forall>c. \<not> toString_throws (sessionCode (conns host_silent c))"
    using r [THEN conjunct2, THEN conjunct2, THEN conjunct1, THEN conjunct2]
    by (simp only: hs not_False_eq_True simp_thms)
  from t [THEN conjunct1] d(1) p
  obtain s' where s': "pingInterval host_silent = Inr s'"
    "same_but_liveness s'
       (fold (\<lambda>c t. terminate c (state_of (handleDisconnect c t)))
             (filter (\<lambda>c. \<not> isAlive (conns host_silent c)) (clients host_silent)) host_silent)"
    "\<forall>c\<in>set (clients host_silent). \<not> isAlive (conns host_silent c) \<and>
        readyState (conns host_silent c) = OPEN \<longrightarrow> readyState (conns s' c) = CLOSING"
    "\<forall>c\<in>set (clients host_silent). isAlive (conns host_silent c) \<longrightarrow>
        \<not> isAlive (conns s' c) \<and> pings (conns s' c) = Suc (pings (conns host_silent c)) \<and>
        readyState (conns s' c) = readyState (conns host_silent c)"
    by blast
  have f: "fold (\<lambda>c t. terminate c (state_of (handleDisconnect c t)))
             (filter (\<lambda>c. \<not> isAlive (conns host_silent c)) (clients host_silent)) host_silent
           = terminate 0 (state_of (handleDisconnect 0 host_silent))"
    by (simp add: host_silent_state paired_conns)
  have e: "sessions (terminate 0 (state_of (handleDisconnect 0 host_silent))) code_ABC = None"
    "sent (conns (terminate 0 (state_of (handleDisconnect 0 host_silent))) 1)
       = sent (conns host_silent 1) @ [Peer_disconnected]"
    by (simp_all add: host_silent_state paired_conns paired_registry handler_defs code_ABC_def)
  from s'(2) have "sessions s' = sessions (terminate 0 (state_of (handleDisconnect 0 host_silent)))"
    and "sent (conns s' 1) = sent (conns (terminate 0 (state_of (handleDisconnect 0 host_silent))) 1)"
    by (simp_all only: f same_but_liveness_def)
  with e have 1: "sessions s' code_ABC = None"
    "sent (conns s' 1) = sent (conns host_silent 1) @ [Peer_disconnected]"
    by simp_all
  from s'(3) d(3) a(3,4) have 2: "readyState (conns s' 0) = CLOSING"
    by blast
  from s'(4) d(4) a(5) have "\<not> isAlive (conns s' 1) \<and>
      pings (conns s' 1) = Suc (pings (conns host_silent 1)) \<and>
      readyState (conns s' 1) = readyState (conns host_silent 1)"
    by blast
  with a(7) have 3: "isAlive (conns s' 1) = False"
    "pings (conns s' 1) = Suc (pings (conns host_silent 1))" "readyState (conns s' 1) = OPEN"
    by simp_all
  from s'(1) 2 1 3
  have A: "\<exists>s'. pingInterval host_silent = Inr s' \<and>
      readyState (conns s' 0) = CLOSING \<and> sessions s' code_ABC = None \<and>
      sent (conns s' 1) = sent (conns host_silent 1) @ [Peer_disconnected] \<and>
      isAlive (conns s' 1) = False \<and>
      pings (conns s' 1) = Suc (pings (conns host_silent 1)) \<and>
      readyState (conns s' 1) = OPEN"
    by blast
  from t [THEN conjunct2, THEN conjunct1] d(1,2,5) a(5)
  have B: "readyState (conns (run ([Pong 1] @ [Sweep]) host_silent) 1)
     = readyState (conns (run [Pong 1] host_silent) 1)"
    by blast
  have ia: "clients inline_host_silent = [0, 1]" "nextId inline_host_silent = 2"
    "isAlive (conns inline_host_silent 0) = False"
    "readyState (conns inline_host_silent 0) = OPEN"
    "isAlive (conns inline_host_silent 1) = True"
    "sessions inline_host_silent code_ABC = Some (0, 1)"
    "readyState (conns inline_host_silent 1) = OPEN"
    "sessionCode (conns inline_host_silent 0) = code_ABC" "truthy code_ABC"
    by (simp_all add: inline_host_silent_state paired_conns code_ABC_def)
  have id: "distinct (clients inline_host_silent)"
    "\<forall>c\<in>set (clients inline_host_silent). c < nextId inline_host_silent"
    "0 \<in> set (clients inline_host_silent)" "1 \<in> set (clients inline_host_silent)"
    by (simp_all add: inline_host_silent_state)
  note v = u [THEN conjunct2, THEN conjunct2, THEN conjunct2, THEN conjunct1,
      rule_format, OF conjI [OF id(1,2)]]
  from v [THEN conjunct2, THEN conjunct1] ia(6)
  have D1: "sessions (inline_sweep inline_host_silent) code_ABC = Some (0, 1)"
    by simp
  from v [THEN conjunct2, THEN conjunct2, THEN conjunct1]
  have D2: "sent (conns (inline_sweep inline_host_silent) 1) = sent (conns inline_host_silent 1)"
    by blast
  note w = v [THEN conjunct2, THEN conjunct2, THEN conjunct2, THEN conjunct1,
      rule_format, OF id(3) conjI]
  have na: "\<not> isAlive (conns inline_host_silent 0)"
    by (simp add: ia(3))
  note w2 = w [OF na ia(4)]
  from w2 [THEN conjunct1]
  have D3: "readyState (conns (inline_sweep inline_host_silent) 0) = CLOSING" .
  from w2 [THEN conjunct2, THEN conjunct2, THEN conjunct2, THEN conjunct2] ia(8,9)
  have D4: "sessions (inline_step (Close 0) (inline_sweep inline_host_silent)) code_ABC = None"
    by simp
  have D5: "sent (conns (inline_step (Close 0) (inline_sweep inline_host_silent)) 1)
     = sent (conns inline_host_silent 1) @ [Peer_disconnected]"
    by (simp add: inline_host_silent_state paired_conns inline_defs code_ABC_def)
  from v [THEN conjunct2, THEN conjunct2, THEN conjunct2, THEN conjunct2] id(4) ia(5,7)
  have D6: "isAlive (conns (inline_sweep inline_host_silent) 1) = False"
    "readyState (conns (inline_sweep inline_host_silent) 1) = OPEN"
    by auto
  from u [THEN conjunct2, THEN conjunct2, THEN conjunct2, THEN conjunct2, THEN conjunct1]
    id(1,2) d(5) ia(5)
  have E: "readyState (conns (inline_run ([Pong 1] @ [Sweep]) inline_host_silent) 1)
     = readyState (conns (inline_run [Pong 1] inline_host_silent) 1)"
    by blast
  from a(1-6) p A B ia(1-5) D1 D2 D3 D4 D5 D6 E show ?thesis
    by (intro conjI) (simp_all only: not_False_eq_True simp_thms)
qed

end
